theory Spec2Isabelle
  imports Complex_Main "HOL-Library.Char_ord" "HOL-Library.List_Lexorder"
begin

section \<open>Modelling conventions\<close>

text \<open>
  The development embeds the cohort analytics core of the dashboard:
  \<^verbatim>\<open>dashboard/src/lib/analytics/utils.ts\<close> and the two pivot builders of
  \<^verbatim>\<open>dashboard/src/components/dashboard/Dashboard.tsx\<close>.

  \<^item> A JavaScript string is a \<open>string\<close>, one 8-bit character for each code unit; the
    model covers text whose code units are below 256. Comparison of strings with \<open><\<close>, \<open>>\<close>, \<open>>=\<close> is the lexicographic
    order on code units, which is the order of \<open>HOL-Library.List_Lexorder\<close> over
    \<open>HOL-Library.Char_ord\<close>. A string is truthy iff it is not empty.
  \<^item> A JavaScript number that holds an amount (spend, value, ratio, size) is an exact
    \<open>real\<close>; IEEE rounding is not modelled, except that a parsed literal too large for
    a double is \<open>Infinity\<close>. A number that holds a count of months or a
    parsed year is an \<open>int\<close>. \<open>NaN\<close> returned by \<open>Number.parseInt\<close> is \<open>None\<close>.
    Integers are taken exactly; a JavaScript number does so up to \<open>2^53 - 1\<close>, and
    larger values are outside the model.
  \<^item> \<open>undefined\<close> is \<open>None\<close>; an object used as a dictionary is a map.
\<close>

section \<open>JavaScript string primitives\<close>

text \<open>White space and line terminators, as skipped by \<^verbatim>\<open>trim\<close>, \<^verbatim>\<open>parseInt\<close> and
  \<^verbatim>\<open>parseFloat\<close>: tab, line feed, vertical tab, form feed, carriage return, space and
  the no-break space \<open>U+00A0\<close> (the others have code units above 255).\<close>

definition isWhiteSpace :: "char \<Rightarrow> bool" where
  "isWhiteSpace c \<longleftrightarrow> (of_char c :: nat) \<in> {9, 10, 11, 12, 13, 32, 160}"

text \<open>\<^verbatim>\<open>String.prototype.trim\<close>\<close>

definition trim :: "string \<Rightarrow> string" where
  "trim s = rev (dropWhile isWhiteSpace (rev (dropWhile isWhiteSpace s)))"

text \<open>\<^verbatim>\<open>String.prototype.split\<close> with a separator of one character: the result always
  has at least one element.\<close>

fun split_str :: "char \<Rightarrow> string \<Rightarrow> string list" where
  "split_str c [] = [[]]"
| "split_str c (x # xs) =
     (if x = c then [] # split_str c xs
      else (x # hd (split_str c xs)) # tl (split_str c xs))"

definition isDigit :: "char \<Rightarrow> bool" where
  "isDigit c \<longleftrightarrow> 48 \<le> (of_char c :: nat) \<and> (of_char c :: nat) \<le> 57"

definition digitVal :: "char \<Rightarrow> nat" where
  "digitVal c = of_char c - 48"

definition digitsVal :: "string \<Rightarrow> nat" where
  "digitsVal ds = foldl (\<lambda>acc c. 10 * acc + digitVal c) 0 ds"

text \<open>An optional sign in front of a numeric literal.\<close>

definition stripSign :: "string \<Rightarrow> string" where
  "stripSign s = (if s \<noteq> [] \<and> (hd s = CHR ''+'' \<or> hd s = CHR ''-'') then tl s else s)"

definition isNegative :: "string \<Rightarrow> bool" where
  "isNegative s \<longleftrightarrow> s \<noteq> [] \<and> hd s = CHR ''-''"

text \<open>\<^verbatim>\<open>Number.parseInt(str, 10)\<close>: leading white space is skipped, one sign is
  accepted, then the longest run of decimal digits is read; no digit gives \<open>NaN\<close>.\<close>

definition parseInt :: "string \<Rightarrow> int option" where
  "parseInt str =
     (let s = dropWhile isWhiteSpace str;
          z = takeWhile isDigit (stripSign s)
      in if z = [] then None
         else Some ((if isNegative s then - 1 else 1) * int (digitsVal z)))"

text \<open>\<^verbatim>\<open>Number.parseFloat\<close>: leading white space is skipped and the longest prefix that
  is a decimal literal (sign, \<open>Infinity\<close>, digits with an optional fraction and an
  optional complete exponent) is read; without such a prefix the result is \<open>NaN\<close>.
  The value of the literal is rounded to a double: from the magnitude
  \<open>2^1024 - 2^970\<close> on (half way between the largest double and \<open>2^1024\<close>) the result
  is an infinity; below it the result is finite and is taken exactly.\<close>

datatype jsnum = Finite real | NaN | PosInfinity | NegInfinity

definition DOUBLE_OVERFLOW :: real where
  "DOUBLE_OVERFLOW = 2 ^ 1024 - 2 ^ 970"

definition toDouble :: "real \<Rightarrow> jsnum" where
  "toDouble x =
     (if DOUBLE_OVERFLOW \<le> x then PosInfinity
      else if x \<le> - DOUBLE_OVERFLOW then NegInfinity
      else Finite x)"

definition pow10 :: "int \<Rightarrow> real" where
  "pow10 e = (if 0 \<le> e then 10 ^ nat e else 1 / 10 ^ nat (- e))"

definition exponentPart :: "string \<Rightarrow> int" where
  "exponentPart r =
     (if r \<noteq> [] \<and> (hd r = CHR ''e'' \<or> hd r = CHR ''E'') then
        (let ds = takeWhile isDigit (stripSign (tl r))
         in if ds = [] then 0
            else (if isNegative (tl r) then - 1 else 1) * int (digitsVal ds))
      else 0)"

definition parseFloat :: "string \<Rightarrow> jsnum" where
  "parseFloat str =
     (let s = dropWhile isWhiteSpace str;
          u = stripSign s
      in if take 8 u = ''Infinity'' then (if isNegative s then NegInfinity else PosInfinity)
         else
           let ip = takeWhile isDigit u;
               r1 = dropWhile isDigit u;
               dot = (r1 \<noteq> [] \<and> hd r1 = CHR ''.'');
               fp = (if dot then takeWhile isDigit (tl r1) else []);
               r2 = (if dot then dropWhile isDigit (tl r1) else r1)
           in if ip = [] \<and> fp = [] then NaN
              else toDouble ((if isNegative s then - 1 else 1) * real (digitsVal (ip @ fp))
                             * pow10 (exponentPart r2 - int (length fp))))"

definition digitChar :: "nat \<Rightarrow> char" where
  "digitChar d = char_of (48 + d)"

fun digitsOf :: "nat \<Rightarrow> string" where
  "digitsOf n = (if n < 10 then [digitChar n] else digitsOf (n div 10) @ [digitChar (n mod 10)])"

declare digitsOf.simps [simp del]

text \<open>\<^verbatim>\<open>String(n)\<close> for an integer \<open>n\<close> (decimal notation).\<close>

definition numToString :: "int \<Rightarrow> string" where
  "numToString i = (if i < 0 then CHR ''-'' # digitsOf (nat (- i)) else digitsOf (nat i))"

text \<open>\<^verbatim>\<open>String.prototype.padStart\<close> with a fill string of one character.\<close>

definition padStart :: "nat \<Rightarrow> char \<Rightarrow> string \<Rightarrow> string" where
  "padStart n c s = replicate (n - length s) c @ s"

section \<open>utils.ts\<close>

text \<open>\<^verbatim>\<open>parseCohortMonthKey\<close>: only the \<open>key\<close> component of the result is modelled;
  the \<open>Date\<close> component is not used by the pivot builders.\<close>

definition nth_or :: "string list \<Rightarrow> nat \<Rightarrow> string \<Rightarrow> string" where
  "nth_or xs i d = (if i < length xs then xs ! i else d)"

definition parseCohortMonthKey :: "string \<Rightarrow> string" where
  "parseCohortMonthKey raw =
     (let dateStr = trim (hd (split_str CHR '' '' raw));
          parts = split_str CHR ''-'' dateStr;
          year = nth_or parts 0 [];
          month = nth_or parts 1 []
      in case (parseInt year, parseInt month) of
           (Some y, Some m) \<Rightarrow> numToString y @ ''-'' @ padStart 2 CHR ''0'' (numToString m)
         | _ \<Rightarrow> [])"

text \<open>The argument of \<^verbatim>\<open>parseRetention\<close> has type \<open>unknown\<close>: a number, a string, or a
  value of any other type.\<close>

datatype jsval = JNumber jsnum | JString string | JOther

fun finiteOrZero :: "jsnum \<Rightarrow> real" where
  "finiteOrZero (Finite x) = x"
| "finiteOrZero _ = 0"

fun parseRetention :: "jsval \<Rightarrow> real" where
  "parseRetention (JNumber n) = finiteOrZero n"
| "parseRetention (JString val) =
     (let trimmed = trim val
      in if trimmed = [] then 0
         else if last trimmed = CHR ''%'' then
           (case parseFloat (butlast trimmed) of Finite pct \<Rightarrow> pct / 100 | _ \<Rightarrow> 0)
         else finiteOrZero (parseFloat trimmed))"
| "parseRetention JOther = 0"

text \<open>\<^verbatim>\<open>monthsDiff\<close>: the destructuring \<open>[sy, sm] = ...\<close> yields \<open>undefined\<close> for a
  missing part, which \<open>Number.isFinite\<close> rejects like \<open>NaN\<close>.\<close>

definition parsePart :: "string list \<Rightarrow> nat \<Rightarrow> int option" where
  "parsePart parts i = (if i < length parts then parseInt (parts ! i) else None)"

definition monthsDiff :: "string \<Rightarrow> string \<Rightarrow> int" where
  "monthsDiff startKey endKey =
     (if startKey = [] \<or> endKey = [] then 0
      else
        let sp = split_str CHR ''-'' startKey; ep = split_str CHR ''-'' endKey
        in case (parsePart sp 0, parsePart sp 1, parsePart ep 0, parsePart ep 1) of
             (Some sy, Some sm, Some ey, Some em) \<Rightarrow> max 0 ((ey - sy) * 12 + (em - sm))
           | _ \<Rightarrow> 0)"

definition AED_TO_USD :: real where
  "AED_TO_USD = 1 / 3.6725"

definition aedToUsd :: "real \<Rightarrow> real" where
  "aedToUsd aedValue = aedValue * AED_TO_USD"

definition calculateCacUsd :: "real option \<Rightarrow> real \<Rightarrow> real option" where
  "calculateCacUsd spendAed cohortSize =
     (case spendAed of
        None \<Rightarrow> None
      | Some s \<Rightarrow> if cohortSize \<le> 0 then None else Some (aedToUsd s / cohortSize))"

text \<open>The \<open>for\<close> loop of \<^verbatim>\<open>findBreakEvenMonth\<close>, from the counter \<open>m\<close> on.\<close>

function breakEvenLoop :: "(int \<rightharpoonup> real) \<Rightarrow> real \<Rightarrow> int \<Rightarrow> int \<Rightarrow> int option" where
  "breakEvenLoop vals cacUsd maxMonth m =
     (if m \<le> maxMonth then
        (case vals m of
           Some ltv \<Rightarrow> if aedToUsd ltv \<ge> cacUsd then Some m
                       else breakEvenLoop vals cacUsd maxMonth (m + 1)
         | None \<Rightarrow> breakEvenLoop vals cacUsd maxMonth (m + 1))
      else None)"
  by pat_completeness auto
termination
  by (relation "measure (\<lambda>(vals, cacUsd, maxMonth, m). nat (maxMonth + 1 - m))") auto

declare breakEvenLoop.simps [simp del]

definition findBreakEvenMonth :: "(int \<rightharpoonup> real) \<Rightarrow> real option \<Rightarrow> int \<Rightarrow> int option" where
  "findBreakEvenMonth vals cacUsd maxMonth =
     (case cacUsd of
        None \<Rightarrow> None
      | Some c \<Rightarrow> breakEvenLoop vals c maxMonth 0)"

section \<open>Fact rows and pivot results\<close>

text \<open>Modelled from the spec: the union types \<open>Dimension\<close>, \<open>Metric\<close>, \<open>Segment\<close> and
  \<open>Measure\<close> are declared in \<^verbatim>\<open>lib/analytics/types.ts\<close>, which is not among the
  sources; their members are those of section 3 of the specification and of
  the literals used in \<^verbatim>\<open>Dashboard.tsx\<close> and \<^verbatim>\<open>constants.ts\<close>
  (\<open>"overall"\<close>, \<open>"any"\<close>, \<open>"all"\<close>, \<open>"revenue"\<close>, \<open>"gm"\<close>).\<close>

datatype Dimension = Overall | Category | Sku
datatype Metric = AnyProduct | SameCategory
datatype Segment = AllCustomers | Subscribers | OneTime
datatype Measure = Revenue | Gm

text \<open>The fields shared by \<open>RetentionRow\<close> and \<open>LtvRow\<close>. The field \<open>m\<close> of the source is
  called \<open>offset_m\<close> here. The \<open>Date\<close> field \<open>cohortMonth\<close> of a fact row is read by
  neither pivot builder and is left out.\<close>

record FactRow =
  cohortMonthKey :: string
  dimension :: Dimension
  first_value :: string
  offset_m :: int
  metric :: Metric
  segment :: Segment
  cohort_size :: real

record RetentionRow = FactRow +
  retention :: real

record LtvRow = FactRow +
  cohort_type :: string
  measure :: Measure
  ltv_per_user :: real

text \<open>The \<open>filters\<close> argument of the builders; the fields that share a name with a
  field of a row carry the prefix \<open>flt_\<close>.\<close>

record Filters =
  flt_dimension :: Dimension
  flt_metric :: Metric
  flt_segment :: Segment
  firstValue :: string
  startMonth :: string
  endMonth :: string

record LtvFilters = Filters +
  flt_measure :: Measure

text \<open>An entry of the \<open>byMonth\<close> map, \<open>{ size, values }\<close>.\<close>

record Group =
  grp_size :: real
  grp_values :: "int \<rightharpoonup> real"

record HeatmapRow =
  cohortMonth :: string
  cohortSize :: real
  cellValues :: "int \<rightharpoonup> real"

record PivotResult =
  rows :: "HeatmapRow list"
  maxMonth :: int
  maxValue :: "real option"

text \<open>A JavaScript \<open>Map\<close> keeps its entries in insertion order: an association list
  with distinct keys. \<open>mapSet\<close> is \<^verbatim>\<open>Map.prototype.set\<close>, \<open>mapHas\<close> is \<^verbatim>\<open>has\<close>.
  The builders fetch the group object with \<^verbatim>\<open>get\<close> and assign to a slot of its
  \<open>values\<close>; the map holds a reference to that object, so the assignment is an update
  of the entry in place (\<open>setGroupValue\<close>).\<close>

type_synonym byMonth = "(string \<times> Group) list"

definition mapHas :: "byMonth \<Rightarrow> string \<Rightarrow> bool" where
  "mapHas bm k \<longleftrightarrow> map_of bm k \<noteq> None"

definition mapSet :: "string \<Rightarrow> Group \<Rightarrow> byMonth \<Rightarrow> byMonth" where
  "mapSet k v bm =
     (if mapHas bm k then map (\<lambda>(k', v'). if k' = k then (k', v) else (k', v')) bm
      else bm @ [(k, v)])"

definition putValue :: "int \<Rightarrow> real \<Rightarrow> Group \<Rightarrow> Group" where
  "putValue i v g = g\<lparr>grp_values := (grp_values g)(i \<mapsto> v)\<rparr>"

definition setGroupValue :: "string \<Rightarrow> int \<Rightarrow> real \<Rightarrow> byMonth \<Rightarrow> byMonth" where
  "setGroupValue k i v bm =
     map (\<lambda>(k', g). if k' = k then (k', putValue i v g) else (k', g)) bm"

definition MAX_SAFE_INTEGER :: int where
  "MAX_SAFE_INTEGER = 9007199254740991"

text \<open>\<^verbatim>\<open>Math.max(0, ...xs)\<close>\<close>

definition mathMax0 :: "int list \<Rightarrow> int" where
  "mathMax0 xs = foldl max 0 xs"

text \<open>\<^verbatim>\<open>Array.from(byMonth.entries()).map(...).sort(...)\<close>; \<open>localeCompare\<close> on cohort
  keys is taken as the order on code units.\<close>

definition toHeatmapRow :: "string \<times> Group \<Rightarrow> HeatmapRow" where
  "toHeatmapRow e = \<lparr>cohortMonth = fst e, cohortSize = grp_size (snd e),
                     cellValues = grp_values (snd e)\<rparr>"

definition orderedRows :: "byMonth \<Rightarrow> HeatmapRow list" where
  "orderedRows bm = sort_key cohortMonth (map toHeatmapRow bm)"

section \<open>Dashboard.tsx: buildRetentionPivot\<close>

definition retentionFilter :: "Filters \<Rightarrow> RetentionRow \<Rightarrow> bool" where
  "retentionFilter filters row =
     (if segment row \<noteq> flt_segment filters then False
      else if dimension row \<noteq> flt_dimension filters then False
      else if flt_dimension filters \<noteq> Overall \<and> first_value row \<noteq> firstValue filters then False
      else if metric row \<noteq> flt_metric filters then False
      else if startMonth filters \<noteq> [] \<and> cohortMonthKey row < startMonth filters then False
      else if endMonth filters \<noteq> [] \<and> cohortMonthKey row > endMonth filters then False
      else if flt_dimension filters = Overall \<and> first_value row \<noteq> ''ALL'' then False
      else True)"

definition allowedOffset :: "string \<Rightarrow> string \<Rightarrow> int" where
  "allowedOffset lastObservedMonth key =
     (if lastObservedMonth \<noteq> [] then monthsDiff key lastObservedMonth else MAX_SAFE_INTEGER)"

definition ensureGroup :: "byMonth \<Rightarrow> string \<Rightarrow> real \<Rightarrow> byMonth" where
  "ensureGroup bm key sz =
     (if \<not> mapHas bm key then mapSet key \<lparr>grp_size = sz, grp_values = Map.empty\<rparr> bm else bm)"

text \<open>One iteration of the loop over \<open>filtered\<close>.\<close>

definition retentionStep :: "string \<Rightarrow> byMonth \<Rightarrow> RetentionRow \<Rightarrow> byMonth" where
  "retentionStep lastObservedMonth bm row =
     (let bm1 = ensureGroup bm (cohortMonthKey row) (cohort_size row);
          allowed = allowedOffset lastObservedMonth (cohortMonthKey row)
      in if lastObservedMonth \<noteq> [] \<and> offset_m row > allowed then bm1
         else setGroupValue (cohortMonthKey row) (offset_m row) (retention row) bm1)"

definition pivotMaxMonth :: "string \<Rightarrow> 'a FactRow_scheme list \<Rightarrow> int" where
  "pivotMaxMonth lastObservedMonth filtered =
     (if filtered \<noteq> [] then
        (if lastObservedMonth \<noteq> []
         then mathMax0 (map (\<lambda>row. monthsDiff (cohortMonthKey row) lastObservedMonth) filtered)
         else mathMax0 (map offset_m filtered))
      else 0)"

definition retentionFiltered :: "RetentionRow list \<Rightarrow> Filters \<Rightarrow> RetentionRow list" where
  "retentionFiltered rws filters = filter (retentionFilter filters) rws"

definition buildRetentionPivot :: "RetentionRow list \<Rightarrow> Filters \<Rightarrow> string \<Rightarrow> PivotResult" where
  "buildRetentionPivot rws filters lastObservedMonth =
     (let filtered = retentionFiltered rws filters;
          byMonth = foldl (retentionStep lastObservedMonth) [] filtered
      in \<lparr>rows = orderedRows byMonth,
          maxMonth = pivotMaxMonth lastObservedMonth filtered,
          maxValue = None\<rparr>)"

section \<open>Dashboard.tsx: buildLtvPivot\<close>

definition ltvFilter :: "LtvFilters \<Rightarrow> string \<Rightarrow> LtvRow \<Rightarrow> bool" where
  "ltvFilter filters lastObservedMonth row =
     (if segment row \<noteq> flt_segment filters then False
      else if dimension row \<noteq> flt_dimension filters then False
      else if flt_dimension filters \<noteq> Overall \<and> first_value row \<noteq> firstValue filters then False
      else if metric row \<noteq> flt_metric filters then False
      else if measure row \<noteq> flt_measure filters then False
      else if startMonth filters \<noteq> [] \<and> cohortMonthKey row < startMonth filters then False
      else if endMonth filters \<noteq> [] \<and> cohortMonthKey row > endMonth filters then False
      else if lastObservedMonth \<noteq> [] \<and> cohortMonthKey row \<ge> lastObservedMonth then False
      else if flt_dimension filters = Overall \<and> first_value row \<noteq> ''ALL'' then False
      else True)"

text \<open>One iteration of the loop over \<open>filtered\<close>; the state is the map and \<open>maxValue\<close>.\<close>

definition ltvStep :: "string \<Rightarrow> byMonth \<times> real \<Rightarrow> LtvRow \<Rightarrow> byMonth \<times> real" where
  "ltvStep lastObservedMonth st row =
     (let bm1 = ensureGroup (fst st) (cohortMonthKey row) (cohort_size row);
          allowed = allowedOffset lastObservedMonth (cohortMonthKey row)
      in if lastObservedMonth \<noteq> [] \<and> offset_m row > allowed then (bm1, snd st)
         else if ltv_per_user row \<le> 0 then (bm1, snd st)
         else (setGroupValue (cohortMonthKey row) (offset_m row) (ltv_per_user row) bm1,
               if ltv_per_user row > snd st then ltv_per_user row else snd st))"

definition ltvFiltered :: "LtvRow list \<Rightarrow> LtvFilters \<Rightarrow> string \<Rightarrow> LtvRow list" where
  "ltvFiltered rws filters lastObservedMonth = filter (ltvFilter filters lastObservedMonth) rws"

definition buildLtvPivot :: "LtvRow list \<Rightarrow> LtvFilters \<Rightarrow> string \<Rightarrow> PivotResult" where
  "buildLtvPivot rws filters lastObservedMonth =
     (let filtered = ltvFiltered rws filters lastObservedMonth;
          st = foldl (ltvStep lastObservedMonth) ([], 0) filtered
      in \<lparr>rows = orderedRows (fst st),
          maxMonth = pivotMaxMonth lastObservedMonth filtered,
          maxValue = Some (snd st)\<rparr>)"

section \<open>LtvHeatmap: the CAC overlay of one row\<close>

text \<open>\<^verbatim>\<open>MARKETING_SPEND_AED\<close> of \<^verbatim>\<open>constants.ts\<close>.\<close>

definition MARKETING_SPEND_AED :: "string \<rightharpoonup> real" where
  "MARKETING_SPEND_AED = map_of
     [(''2024-10'', 3034), (''2024-11'', 14765), (''2024-12'', 17466), (''2025-01'', 27372),
      (''2025-02'', 16761), (''2025-03'', 39748), (''2025-04'', 38939), (''2025-05'', 49600),
      (''2025-06'', 50600), (''2025-07'', 51880), (''2025-08'', 58139), (''2025-09'', 94500),
      (''2025-10'', 80142), (''2025-11'', 68266), (''2025-12'', 74215), (''2026-01'', 84900)]"

text \<open>\<^verbatim>\<open>marketingSpend?.[row.cohortMonth]\<close>, then the two calls made for every row of the
  table body.\<close>

definition rowSpendAed :: "(string \<rightharpoonup> real) option \<Rightarrow> HeatmapRow \<Rightarrow> real option" where
  "rowSpendAed marketingSpend row =
     (case marketingSpend of None \<Rightarrow> None | Some table \<Rightarrow> table (cohortMonth row))"

definition rowCacUsd :: "(string \<rightharpoonup> real) option \<Rightarrow> HeatmapRow \<Rightarrow> real option" where
  "rowCacUsd marketingSpend row =
     calculateCacUsd (rowSpendAed marketingSpend row) (cohortSize row)"

definition rowBreakEvenMonth ::
    "(string \<rightharpoonup> real) option \<Rightarrow> HeatmapRow \<Rightarrow> int \<Rightarrow> int option" where
  "rowBreakEvenMonth marketingSpend row maxM =
     findBreakEvenMonth (cellValues row) (rowCacUsd marketingSpend row) maxM"

section \<open>What one row does to the group of its cohort\<close>

text \<open>
  The two loops differ only in the condition under which a row is skipped and in the
  field that is recorded. \<open>truncated\<close> is the test \<^verbatim>\<open>lastObservedMonth && row.m > allowed\<close>;
  the LTV loop also skips a row whose value is not positive. \<open>groupStep\<close> is the effect of
  one iteration on the map read as a function from cohort keys to groups, and
  \<open>groupsOf\<close> the effect of the whole loop started on the empty map.
\<close>

definition truncated :: "string \<Rightarrow> 'a FactRow_scheme \<Rightarrow> bool" where
  "truncated lom row \<longleftrightarrow> lom \<noteq> [] \<and> offset_m row > monthsDiff (cohortMonthKey row) lom"

definition ltvSkipped :: "string \<Rightarrow> LtvRow \<Rightarrow> bool" where
  "ltvSkipped lom row \<longleftrightarrow> truncated lom row \<or> ltv_per_user row \<le> 0"

definition newGroup :: "'a FactRow_scheme \<Rightarrow> Group" where
  "newGroup row = \<lparr>grp_size = cohort_size row, grp_values = Map.empty\<rparr>"

definition recordRow :: "bool \<Rightarrow> 'a FactRow_scheme \<Rightarrow> real \<Rightarrow> Group option \<Rightarrow> Group" where
  "recordRow skip row v go =
     (let g = (case go of None \<Rightarrow> newGroup row | Some g \<Rightarrow> g)
      in if skip then g else putValue (offset_m row) v g)"

definition groupStep ::
    "('a FactRow_scheme \<Rightarrow> bool) \<Rightarrow> ('a FactRow_scheme \<Rightarrow> real) \<Rightarrow>
     (string \<rightharpoonup> Group) \<Rightarrow> 'a FactRow_scheme \<Rightarrow> (string \<rightharpoonup> Group)" where
  "groupStep skip val M row =
     M(cohortMonthKey row \<mapsto> recordRow (skip row) row (val row) (M (cohortMonthKey row)))"

definition groupsOf ::
    "('a FactRow_scheme \<Rightarrow> bool) \<Rightarrow> ('a FactRow_scheme \<Rightarrow> real) \<Rightarrow>
     'a FactRow_scheme list \<Rightarrow> (string \<rightharpoonup> Group)" where
  "groupsOf skip val rs = foldl (groupStep skip val) Map.empty rs"

section \<open>The criteria of the specification\<close>

text \<open>
  The filter predicate in the words of section 4.2 of the specification: segment,
  dimension, dimension value (the value of the criteria unless the dimension is
  \<open>overall\<close>, where it is the sentinel \<open>ALL\<close>), metric, and the two bounds on the cohort
  month; for LTV rows the measure as well. The filters of the code are compared with it.
\<close>

definition specCriteria :: "'a Filters_scheme \<Rightarrow> 'b FactRow_scheme \<Rightarrow> bool" where
  "specCriteria criteria row \<longleftrightarrow>
     segment row = flt_segment criteria
     \<and> dimension row = flt_dimension criteria
     \<and> (if flt_dimension criteria \<noteq> Overall then first_value row = firstValue criteria
        else first_value row = ''ALL'')
     \<and> metric row = flt_metric criteria
     \<and> (startMonth criteria = [] \<or> cohortMonthKey row \<ge> startMonth criteria)
     \<and> (endMonth criteria = [] \<or> cohortMonthKey row \<le> endMonth criteria)"

definition specLtvCriteria :: "LtvFilters \<Rightarrow> LtvRow \<Rightarrow> bool" where
  "specLtvCriteria criteria row \<longleftrightarrow> specCriteria criteria row \<and> measure row = flt_measure criteria"

text \<open>\<^verbatim>\<open>Number.isFinite\<close>\<close>

definition isFiniteNum :: "jsnum \<Rightarrow> bool" where
  "isFiniteNum n = (case n of Finite x \<Rightarrow> True | _ \<Rightarrow> False)"

text \<open>
  A raw ratio without a numeric prefix, described by its text alone: a value that is
  neither a string nor a finite number, or a string whose text (trimmed, a final \<open>%\<close>
  removed) does not begin, after white space and one optional sign, with a digit or
  with a dot that a digit follows. \<open>n/a\<close>, the empty string and \<open>-\<close> are such texts;
  \<open>12abc\<close> is not, it begins with the number 12.
\<close>

definition startsNumber :: "string \<Rightarrow> bool" where
  "startsNumber u \<longleftrightarrow>
     (case u of
        [] \<Rightarrow> False
      | c # cs \<Rightarrow> isDigit c \<or> (c = CHR ''.'' \<and> cs \<noteq> [] \<and> isDigit (hd cs)))"

definition ratioText :: "string \<Rightarrow> string" where
  "ratioText s = (let t = trim s in if t \<noteq> [] \<and> last t = CHR ''%'' then butlast t else t)"

definition noNumericPrefix :: "jsval \<Rightarrow> bool" where
  "noNumericPrefix v =
     (case v of
        JNumber n \<Rightarrow> \<not> isFiniteNum n
      | JString s \<Rightarrow> \<not> startsNumber (stripSign (dropWhile isWhiteSpace (ratioText s)))
      | JOther \<Rightarrow> True)"

text \<open>
  The date strings of the key round trip: the year padded to four digits, the month
  padded to two, then any text that does not continue the month with a digit (nothing,
  a day \<open>-DD\<close>, a time after a space).
\<close>

definition dateString :: "nat \<Rightarrow> nat \<Rightarrow> string \<Rightarrow> string" where
  "dateString year month rest =
     padStart 4 CHR ''0'' (numToString (int year)) @ ''-''
       @ padStart 2 CHR ''0'' (numToString (int month)) @ rest"

definition noDigitAhead :: "string \<Rightarrow> bool" where
  "noDigitAhead r \<longleftrightarrow> r = [] \<or> \<not> isDigit (hd r)"

definition allDigits :: "string \<Rightarrow> bool" where
  "allDigits ds \<longleftrightarrow> ds \<noteq> [] \<and> (\<forall>c \<in> set ds. isDigit c)"

section \<open>Inputs of the scenarios\<close>

definition breakEvenExample :: "int \<rightharpoonup> real" where
  "breakEvenExample = [0 \<mapsto> 100, 1 \<mapsto> 250, 2 \<mapsto> 400]"

definition absentSpendRow :: HeatmapRow where
  "absentSpendRow = \<lparr>cohortMonth = ''2024-09'', cohortSize = 5, cellValues = [0 \<mapsto> 350]\<rparr>"

definition overallFilters :: Filters where
  "overallFilters = \<lparr>flt_dimension = Overall, flt_metric = AnyProduct, flt_segment = AllCustomers,
                      firstValue = ''ALL'', startMonth = [], endMonth = []\<rparr>"

definition overallLtvFilters :: LtvFilters where
  "overallLtvFilters = \<lparr>flt_dimension = Overall, flt_metric = AnyProduct, flt_segment = AllCustomers,
                      firstValue = ''ALL'', startMonth = [], endMonth = [], flt_measure = Revenue\<rparr>"

definition overallRetentionRow :: "string \<Rightarrow> int \<Rightarrow> real \<Rightarrow> real \<Rightarrow> RetentionRow" where
  "overallRetentionRow key i sz ratio =
     \<lparr>cohortMonthKey = key, dimension = Overall, first_value = ''ALL'', offset_m = i,
      metric = AnyProduct, segment = AllCustomers, cohort_size = sz, retention = ratio\<rparr>"

definition overallLtvRow :: "string \<Rightarrow> int \<Rightarrow> real \<Rightarrow> real \<Rightarrow> LtvRow" where
  "overallLtvRow key i sz v =
     \<lparr>cohortMonthKey = key, dimension = Overall, first_value = ''ALL'', offset_m = i,
      metric = AnyProduct, segment = AllCustomers, cohort_size = sz,
      cohort_type = ''purchase'', measure = Revenue, ltv_per_user = v\<rparr>"

text \<open>
  Retention facts with the boundary \<open>2025-03\<close>: cohort \<open>2025-01\<close> has two rows with
  different sizes and one offset beyond the boundary; the only row of cohort \<open>2025-03\<close>
  is beyond the boundary.
\<close>

definition retentionScenario :: "RetentionRow list" where
  "retentionScenario =
     [overallRetentionRow ''2025-02'' 0 8 1,
      overallRetentionRow ''2025-01'' 0 10 1,
      overallRetentionRow ''2025-01'' 1 12 0.7,
      overallRetentionRow ''2025-01'' 5 10 0.2,
      overallRetentionRow ''2025-03'' 1 4 0.5]"

text \<open>
  LTV facts with the boundary \<open>2025-03\<close>: cohort \<open>2025-01\<close> has a zero value and an offset
  beyond the boundary; the only row of cohort \<open>2025-02\<close> has a negative value; cohort
  \<open>2025-03\<close> is at the boundary.
\<close>

definition ltvScenario :: "LtvRow list" where
  "ltvScenario =
     [overallLtvRow ''2025-01'' 0 10 350,
      overallLtvRow ''2025-01'' 1 11 0,
      overallLtvRow ''2025-02'' 0 6 (- 5),
      overallLtvRow ''2025-03'' 0 4 300,
      overallLtvRow ''2025-01'' 4 10 900]"

text \<open>The scenario "single cohort, two offsets" of the specification.\<close>

definition singleCohortRows :: "RetentionRow list" where
  "singleCohortRows =
     [overallRetentionRow ''2025-01'' 0 10 1, overallRetentionRow ''2025-01'' 1 10 0.7]"

text \<open>A retention fact whose raw ratio is the text \<open>n/a\<close>.\<close>

definition malformedRatioRow :: RetentionRow where
  "malformedRatioRow = overallRetentionRow ''2025-01'' 0 10 (parseRetention (JString ''n/a''))"

text \<open>The same fact between a row of another cohort and a row of another offset.\<close>

definition malformedRatioScenario :: "RetentionRow list" where
  "malformedRatioScenario =
     [overallRetentionRow ''2025-02'' 0 8 1] @ malformedRatioRow
       # [overallRetentionRow ''2025-01'' 1 10 0.7]"

section \<open>Break-even scan and CAC\<close>

lemma breakEvenLoop_example:
  "breakEvenLoop breakEvenExample c 2 0 =
     (if c \<le> aedToUsd 100 then Some 0
      else if c \<le> aedToUsd 250 then Some 1
      else if c \<le> aedToUsd 400 then Some 2 else None)"
  by (simp add: breakEvenLoop.simps breakEvenExample_def)

text \<open>
  C1 (as amended). \<open>findBreakEvenMonth\<close> converts every cumulative value from AED to USD
  before it compares it with \<open>cacUsd\<close>. On the values \<open>{0: 100, 1: 250, 2: 400}\<close> with
  \<open>maxMonth = 2\<close> it therefore returns 2 exactly when
  \<open>aedToUsd 250 < cac \<le> aedToUsd 400\<close>, for instance for the CAC \<open>aedToUsd 260\<close>, and
  returns undefined for every larger CAC, in particular for 500.
\<close>

theorem break_even_converted:
  "findBreakEvenMonth breakEvenExample (Some c) 2 =
     (if c \<le> aedToUsd 100 then Some 0
      else if c \<le> aedToUsd 250 then Some 1
      else if c \<le> aedToUsd 400 then Some 2 else None)"
  by (simp add: findBreakEvenMonth_def breakEvenLoop_example)

theorem break_even_converted_witness:
  "findBreakEvenMonth breakEvenExample (Some (aedToUsd 260)) 2 = Some 2
   \<and> findBreakEvenMonth breakEvenExample (Some 500) 2 = None"
  using break_even_converted [of "aedToUsd 260"] break_even_converted [of 500]
  by (simp add: aedToUsd_def AED_TO_USD_def)

text \<open>
  C1 as stated fails: with \<open>cac = 260\<close> the converted values are about 27.2, 68.1 and
  108.9, none reaches 260, and the scan returns undefined, not 2.
\<close>

theorem break_even_unconverted_counterexample:
  "findBreakEvenMonth breakEvenExample (Some 260) 2 = None
   \<and> findBreakEvenMonth breakEvenExample (Some 260) 2 \<noteq> Some 2"
  by (simp add: findBreakEvenMonth_def breakEvenLoop_example aedToUsd_def AED_TO_USD_def)

text \<open>
  C5. \<open>calculateCacUsd\<close> returns undefined exactly when the spend is undefined or the
  cohort size is not positive, and otherwise the converted spend divided by the cohort
  size. For a row whose cohort has no entry in the spend table, the CAC is undefined and
  the break-even month computed from it is undefined (in particular the CAC is not 0).
\<close>

theorem cac_absent:
  "(calculateCacUsd spendAed sz = None \<longleftrightarrow> spendAed = None \<or> sz \<le> 0)
   \<and> (\<forall>s. spendAed = Some s \<and> \<not> sz \<le> 0 \<longrightarrow>
          calculateCacUsd spendAed sz = Some (aedToUsd s / sz))
   \<and> (\<forall>table. table (cohortMonth row) = None \<longrightarrow>
          rowCacUsd (Some table) row = None
          \<and> rowBreakEvenMonth (Some table) row maxM = None
          \<and> rowCacUsd (Some table) row \<noteq> Some 0)"
  by (auto simp: calculateCacUsd_def rowCacUsd_def rowBreakEvenMonth_def rowSpendAed_def
      findBreakEvenMonth_def split: option.splits)

theorem cac_absent_witness:
  "MARKETING_SPEND_AED ''2024-09'' = None
   \<and> rowCacUsd (Some MARKETING_SPEND_AED) absentSpendRow = None
   \<and> rowBreakEvenMonth (Some MARKETING_SPEND_AED) absentSpendRow 3 = None
   \<and> calculateCacUsd (Some 3034) 3 = Some (aedToUsd 3034 / 3)
   \<and> calculateCacUsd (Some 3034) 0 = None"
proof -
  have h: "MARKETING_SPEND_AED (cohortMonth absentSpendRow) = None"
    by (simp add: MARKETING_SPEND_AED_def absentSpendRow_def)
  have k: "cohortMonth absentSpendRow = ''2024-09''"
    by (simp add: absentSpendRow_def)
  show ?thesis
    using h k cac_absent [of "Some 3034" 3 absentSpendRow 3]
      cac_absent [of "Some 3034" 0 absentSpendRow 3]
    by simp
qed

section \<open>Cohort keys\<close>

lemma isDigit_digitChar: "d < 10 \<Longrightarrow> isDigit (digitChar d)"
  by (simp add: isDigit_def digitChar_def)

lemma digitVal_digitChar: "d < 10 \<Longrightarrow> digitVal (digitChar d) = d"
  by (simp add: digitVal_def digitChar_def)

lemma isDigit_zero: "isDigit CHR ''0''"
  by (simp add: isDigit_def)

lemma digit_not_special:
  "isDigit c \<Longrightarrow> \<not> isWhiteSpace c \<and> c \<noteq> CHR ''-'' \<and> c \<noteq> CHR ''+'' \<and> c \<noteq> CHR '' ''"
  by (auto simp: isDigit_def isWhiteSpace_def)

lemma allDigits_digitsOf: "allDigits (digitsOf n)"
proof (induction n rule: digitsOf.induct)
  case (1 n)
  show ?case
  proof (cases "n < 10")
    case True
    then show ?thesis
      by (simp add: digitsOf.simps [of n] allDigits_def isDigit_digitChar)
  next
    case False
    with 1 show ?thesis
      by (simp add: digitsOf.simps [of n] allDigits_def isDigit_digitChar)
  qed
qed

lemma digitsVal_snoc: "digitsVal (ds @ [c]) = 10 * digitsVal ds + digitVal c"
  by (simp add: digitsVal_def)

lemma digitsVal_digitsOf: "digitsVal (digitsOf n) = n"
proof (induction n rule: digitsOf.induct)
  case (1 n)
  show ?case
  proof (cases "n < 10")
    case True
    then show ?thesis
      by (simp add: digitsOf.simps [of n] digitsVal_def digitVal_digitChar)
  next
    case False
    with 1 show ?thesis
      by (simp add: digitsOf.simps [of n] digitsVal_snoc digitVal_digitChar)
  qed
qed

lemma digitsVal_zeros: "digitsVal (replicate k CHR ''0'' @ ds) = digitsVal ds"
proof -
  have "foldl (\<lambda>acc c. 10 * acc + digitVal c) 0 (replicate k CHR ''0'') = 0"
    by (induction k) (simp_all add: digitVal_def)
  then show ?thesis by (simp add: digitsVal_def)
qed

lemma length_digitsOf: "10 ^ k \<le> n \<Longrightarrow> k < length (digitsOf n)"
proof (induction k arbitrary: n)
  case 0
  have "digitsOf n \<noteq> []" using allDigits_digitsOf [of n] by (simp add: allDigits_def)
  then show ?case by simp
next
  case (Suc k)
  have p: "1 \<le> (10::nat) ^ k" by simp
  from Suc.prems have q: "10 * 10 ^ k \<le> n" by simp
  from p q have "\<not> n < 10" by linarith
  moreover from q have "10 ^ k \<le> n div 10" by linarith
  ultimately show ?case
    using Suc.IH [of "n div 10"]
    by (simp add: digitsOf.simps [of n])
qed

lemma allDigits_padStart: "allDigits ds \<Longrightarrow> allDigits (padStart n CHR ''0'' ds)"
  by (auto simp: allDigits_def padStart_def isDigit_zero)

lemma digitsVal_padStart: "digitsVal (padStart n CHR ''0'' ds) = digitsVal ds"
  by (simp add: padStart_def digitsVal_zeros)

lemma takeWhile_prefix_all:
  "\<forall>c \<in> set ds. P c \<Longrightarrow> r = [] \<or> \<not> P (hd r) \<Longrightarrow> takeWhile P (ds @ r) = ds"
  by (cases r) simp_all

lemma parseInt_digits:
  assumes "allDigits ds" and "noDigitAhead r"
  shows "parseInt (ds @ r) = Some (int (digitsVal ds))"
proof -
  from assms(1) obtain d ds' where ds: "ds = d # ds'" and d: "isDigit d"
    by (cases ds) (auto simp: allDigits_def)
  from d have nws: "\<not> isWhiteSpace d" and nm: "d \<noteq> CHR ''-''" and np: "d \<noteq> CHR ''+''"
    using digit_not_special [of d] by simp_all
  have tw: "takeWhile isDigit (ds @ r) = ds"
    using assms by (intro takeWhile_prefix_all) (auto simp: allDigits_def noDigitAhead_def)
  have dw: "dropWhile isWhiteSpace (ds @ r) = ds @ r"
    using nws by (simp add: ds)
  have ss: "stripSign (ds @ r) = ds @ r" and ng: "\<not> isNegative (ds @ r)"
    using nm np by (simp_all add: ds stripSign_def isNegative_def)
  show ?thesis
    unfolding parseInt_def dw Let_def ss tw
    using ng by (simp add: ds)
qed

lemma takeWhile_until:
  "c \<notin> set a \<Longrightarrow> takeWhile (\<lambda>x. x \<noteq> c) (a @ r) = a @ takeWhile (\<lambda>x. x \<noteq> c) r"
  by (induction a) auto

lemma split_str_nonempty: "split_str c s \<noteq> []"
  by (induction s) auto

lemma hd_split_str: "hd (split_str c s) = takeWhile (\<lambda>x. x \<noteq> c) s"
  by (induction s) auto

lemma split_str_no_sep: "c \<notin> set a \<Longrightarrow> split_str c a = [a]"
  by (induction a) auto

lemma split_str_sep: "c \<notin> set a \<Longrightarrow> split_str c (a @ c # b) = a # split_str c b"
  by (induction a) auto

lemma noDigitAhead_takeWhile: "noDigitAhead r \<Longrightarrow> noDigitAhead (takeWhile P r)"
  by (cases r) (auto simp: noDigitAhead_def)

lemma last_dropWhile: "dropWhile P zs \<noteq> [] \<Longrightarrow> last (dropWhile P zs) = last zs"
  by (induction zs) (auto split: if_splits)

lemma noDigitAhead_trim_end: "noDigitAhead r \<Longrightarrow> noDigitAhead (rev (dropWhile P (rev r)))"
proof (cases r)
  case Nil
  then show ?thesis by (simp add: noDigitAhead_def)
next
  case (Cons x xs)
  assume nd: "noDigitAhead r"
  show ?thesis
  proof (cases "dropWhile P (rev r) = []")
    case True
    then show ?thesis by (simp add: noDigitAhead_def)
  next
    case False
    then have "last (dropWhile P (rev r)) = last (rev r)" by (rule last_dropWhile)
    with False Cons have "hd (rev (dropWhile P (rev r))) = x"
      by (simp add: hd_rev)
    with nd Cons show ?thesis by (simp add: noDigitAhead_def)
  qed
qed

lemma dropWhile_append_keep:
  "ys \<noteq> [] \<Longrightarrow> \<not> P (hd ys) \<Longrightarrow> dropWhile P (xs @ ys) = dropWhile P xs @ ys"
  by (induction xs) (auto simp: neq_Nil_conv)

lemma trim_keep:
  assumes "a \<noteq> []" and "\<not> isWhiteSpace (hd a)" and "\<not> isWhiteSpace (last a)"
  shows "trim (a @ r) = a @ rev (dropWhile isWhiteSpace (rev r))"
proof -
  from assms(1,2) have "dropWhile isWhiteSpace (a @ r) = a @ r"
    by (cases a) simp_all
  moreover have "dropWhile isWhiteSpace (rev r @ rev a) = dropWhile isWhiteSpace (rev r) @ rev a"
    using assms(1,3) by (intro dropWhile_append_keep) (simp_all add: hd_rev)
  ultimately show ?thesis by (simp add: trim_def)
qed

text \<open>The key of a date string is the year without padding, a dash, and the month padded
  to two digits.\<close>

lemma parseCohortMonthKey_dateString:
  assumes "noDigitAhead rest"
  shows "parseCohortMonthKey (dateString year month rest) =
           digitsOf year @ ''-'' @ padStart 2 CHR ''0'' (digitsOf month)"
proof -
  define Y where "Y = padStart 4 CHR ''0'' (digitsOf year)"
  define M where "M = padStart 2 CHR ''0'' (digitsOf month)"
  define A where "A = Y @ CHR ''-'' # M"
  define r1 where "r1 = takeWhile (\<lambda>x. x \<noteq> CHR '' '') rest"
  define r2 where "r2 = rev (dropWhile isWhiteSpace (rev r1))"
  define r3 where "r3 = takeWhile (\<lambda>x. x \<noteq> CHR ''-'') r2"
  have Y: "allDigits Y" and M: "allDigits M"
    by (simp_all add: Y_def M_def allDigits_padStart allDigits_digitsOf)
  have raw: "dateString year month rest = A @ rest"
    by (simp add: dateString_def A_def Y_def M_def numToString_def)
  have nsp: "CHR '' '' \<notin> set A" and ndY: "CHR ''-'' \<notin> set Y"
    and ndM: "CHR ''-'' \<notin> set M"
    using Y M digit_not_special by (auto simp: allDigits_def A_def)
  have r1: "noDigitAhead r1" and r2: "noDigitAhead r2" and r3: "noDigitAhead r3"
    using assms by (simp_all add: r1_def r2_def r3_def noDigitAhead_takeWhile noDigitAhead_trim_end)
  have s1: "hd (split_str CHR '' '' (dateString year month rest)) = A @ r1"
    unfolding hd_split_str raw r1_def using nsp by (rule takeWhile_until)
  have A: "A \<noteq> []"
    by (simp add: A_def)
  have hdA: "\<not> isWhiteSpace (hd A)"
    using Y digit_not_special [of "hd Y"] by (cases Y) (auto simp: allDigits_def A_def)
  have lastA: "\<not> isWhiteSpace (last A)"
    using M digit_not_special [of "last M"] by (auto simp: allDigits_def A_def)
  have s2: "trim (A @ r1) = Y @ CHR ''-'' # (M @ r2)"
    using trim_keep [OF A hdA lastA, of r1] by (simp add: r2_def A_def)
  have s3: "split_str CHR ''-'' (Y @ CHR ''-'' # (M @ r2)) = Y # split_str CHR ''-'' (M @ r2)"
    using ndY by (rule split_str_sep)
  have s4: "hd (split_str CHR ''-'' (M @ r2)) = M @ r3"
    unfolding hd_split_str r3_def using ndM by (rule takeWhile_until)
  have year: "nth_or (Y # split_str CHR ''-'' (M @ r2)) 0 [] = Y"
    by (simp add: nth_or_def)
  have month: "nth_or (Y # split_str CHR ''-'' (M @ r2)) 1 [] = M @ r3"
    using split_str_nonempty [of "CHR ''-''" "M @ r2"] s4
    by (cases "split_str CHR ''-'' (M @ r2)") (simp_all add: nth_or_def)
  have py: "parseInt Y = Some (int year)"
    using parseInt_digits [OF Y, of "[]"]
    by (simp add: noDigitAhead_def Y_def digitsVal_padStart digitsVal_digitsOf)
  have pm: "parseInt (M @ r3) = Some (int month)"
    using parseInt_digits [OF M r3] by (simp add: M_def digitsVal_padStart digitsVal_digitsOf)
  show ?thesis
    unfolding parseCohortMonthKey_def s1 s2 s3 Let_def year month py pm
    by (simp add: numToString_def M_def)
qed

lemma char_of_eqI: "of_char c = (n::nat) \<Longrightarrow> char_of n = c"
  by auto

lemma digitChar_numerals:
  "digitChar 0 = CHR ''0''" "digitChar 1 = CHR ''1''" "digitChar 2 = CHR ''2''"
  "digitChar 3 = CHR ''3''" "digitChar 4 = CHR ''4''" "digitChar 5 = CHR ''5''"
  "digitChar 6 = CHR ''6''" "digitChar 7 = CHR ''7''" "digitChar 8 = CHR ''8''"
  "digitChar 9 = CHR ''9''"
  unfolding digitChar_def by (rule char_of_eqI, simp)+

lemma digitsOf_examples:
  "digitsOf 3 = ''3''" "digitsOf 987 = ''987''" "digitsOf 2025 = ''2025''"
  by (simp_all add: digitsOf.simps digitChar_numerals)

text \<open>
  C7 (as amended). For every year from 1000 up to \<open>Number.MAX_SAFE_INTEGER\<close> and every
  month from 1 to 12, the key that \<open>parseCohortMonthKey\<close> gives for a date string built
  from the pair, split on the dash, is the zero-padded year and the zero-padded month.
  (Integers are exact in a JavaScript number up to that bound.)
\<close>

theorem cohort_key_round_trip:
  assumes "1000 \<le> year" and "year \<le> 9007199254740991"
    and "1 \<le> month" and "month \<le> 12" and "noDigitAhead rest"
  shows "split_str CHR ''-'' (parseCohortMonthKey (dateString year month rest)) =
           [padStart 4 CHR ''0'' (numToString (int year)),
            padStart 2 CHR ''0'' (numToString (int month))]"
proof -
  have dy: "CHR ''-'' \<notin> set (digitsOf year)"
    using allDigits_digitsOf [of year] digit_not_special by (auto simp: allDigits_def)
  have dm: "CHR ''-'' \<notin> set (padStart 2 CHR ''0'' (digitsOf month))"
    using allDigits_padStart [OF allDigits_digitsOf, of 2 month] digit_not_special
    by (auto simp: allDigits_def)
  from assms(1) have "3 < length (digitsOf year)"
    by (intro length_digitsOf) simp
  then have pad: "padStart 4 CHR ''0'' (digitsOf year) = digitsOf year"
    by (simp add: padStart_def)
  show ?thesis
    using dy dm pad
    by (simp add: parseCohortMonthKey_dateString [OF assms(5)] split_str_sep split_str_no_sep
        numToString_def)
qed

theorem cohort_key_round_trip_witness:
  "(1000::nat) \<le> 2025 \<and> (2025::nat) \<le> 9007199254740991 \<and> (1::nat) \<le> 3 \<and> (3::nat) \<le> 12
   \<and> noDigitAhead ''-15 00:00:00''
   \<and> dateString 2025 3 ''-15 00:00:00'' = ''2025-03-15 00:00:00''
   \<and> split_str CHR ''-'' (parseCohortMonthKey ''2025-03-15 00:00:00'') = [''2025'', ''03'']"
proof -
  have h: "noDigitAhead ''-15 00:00:00''"
    by (simp add: noDigitAhead_def isDigit_def)
  have d: "dateString 2025 3 ''-15 00:00:00'' = ''2025-03-15 00:00:00''"
    by (simp add: dateString_def padStart_def numToString_def digitsOf_examples)
  show ?thesis
    using h d cohort_key_round_trip [of 2025 3 "''-15 00:00:00''"]
    by (simp add: padStart_def numToString_def digitsOf_examples)
qed

text \<open>
  C7 as stated fails for a year below 1000: the key carries the parsed year without
  padding. The date string \<open>0987-03-01\<close> of the pair (987, 3) has the key \<open>987-03\<close>, whose
  first part is not the zero-padded year \<open>0987\<close>.
\<close>

theorem cohort_key_short_year_counterexample:
  "dateString 987 3 ''-01'' = ''0987-03-01''
   \<and> parseCohortMonthKey ''0987-03-01'' = ''987-03''
   \<and> split_str CHR ''-'' (parseCohortMonthKey (dateString 987 3 ''-01'')) = [''987'', ''03'']
   \<and> padStart 4 CHR ''0'' (numToString 987) = ''0987''"
proof -
  have d: "dateString 987 3 ''-01'' = ''0987-03-01''"
    by (simp add: dateString_def padStart_def numToString_def digitsOf_examples)
  have k: "parseCohortMonthKey ''0987-03-01'' = ''987-03''"
    by (simp add: parseCohortMonthKey_def trim_def nth_or_def parseInt_def stripSign_def
        isNegative_def isWhiteSpace_def isDigit_def digitsVal_def digitVal_def padStart_def numToString_def digitsOf_examples)
  show ?thesis
    by (simp add: d k) (simp add: padStart_def numToString_def digitsOf_examples)
qed

section \<open>The filters\<close>

lemma retentionFilter_iff: "retentionFilter filters row \<longleftrightarrow> specCriteria filters row"
  by (auto simp: retentionFilter_def specCriteria_def)

lemma ltvFilter_iff:
  "ltvFilter filters lom row \<longleftrightarrow>
     specLtvCriteria filters row \<and> (lom = [] \<or> cohortMonthKey row < lom)"
  by (auto simp: ltvFilter_def specLtvCriteria_def specCriteria_def)

lemma specCriteria_overall_retention:
  "specCriteria overallFilters (overallRetentionRow k i sz v)"
  by (simp add: specCriteria_def overallFilters_def overallRetentionRow_def)

lemma specLtvCriteria_overall_ltv:
  "specLtvCriteria overallLtvFilters (overallLtvRow k i sz v)"
  by (simp add: specLtvCriteria_def specCriteria_def overallLtvFilters_def overallLtvRow_def)

text \<open>
  C4 (as amended). A retention row enters the filtered set of \<open>buildRetentionPivot\<close> iff
  it meets the criteria of the specification. An LTV row enters the filtered set of
  \<open>buildLtvPivot\<close> iff it meets these criteria, its measure equals the measure of the
  criteria, and \<open>lastObservedMonth\<close> is empty or the cohort month of the row is strictly
  before it.
\<close>

theorem filtered_set_criteria:
  "(r \<in> set (retentionFiltered rrows rfilters) \<longleftrightarrow> r \<in> set rrows \<and> specCriteria rfilters r)
   \<and> (l \<in> set (ltvFiltered lrows lfilters lom) \<longleftrightarrow>
        l \<in> set lrows \<and> specLtvCriteria lfilters l \<and> (lom = [] \<or> cohortMonthKey l < lom))"
  by (simp add: retentionFiltered_def ltvFiltered_def retentionFilter_iff ltvFilter_iff)

lemma ltvFiltered_scenario:
  "ltvFiltered ltvScenario overallLtvFilters ''2025-03'' =
     [overallLtvRow ''2025-01'' 0 10 350,
      overallLtvRow ''2025-01'' 1 11 0,
      overallLtvRow ''2025-02'' 0 6 (- 5),
      overallLtvRow ''2025-01'' 4 10 900]"
  by (simp add: ltvFiltered_def ltvScenario_def overallLtvFilters_def
      overallLtvRow_def ltvFilter_def)

theorem filtered_set_criteria_witness:
  "overallRetentionRow ''2025-01'' 0 10 1 \<in> set (retentionFiltered retentionScenario overallFilters)
   \<and> overallLtvRow ''2025-01'' 0 10 350 \<in> set (ltvFiltered ltvScenario overallLtvFilters ''2025-03'')
   \<and> overallLtvRow ''2025-03'' 0 4 300 \<in> set (ltvFiltered ltvScenario overallLtvFilters [])"
proof -
  have a: "overallRetentionRow ''2025-01'' 0 10 1 \<in> set retentionScenario"
    by (simp add: retentionScenario_def)
  have b: "overallLtvRow ''2025-01'' 0 10 350 \<in> set ltvScenario"
    by (simp add: ltvScenario_def)
  have c: "overallLtvRow ''2025-03'' 0 4 300 \<in> set ltvScenario"
    by (simp add: ltvScenario_def)
  have d: "cohortMonthKey (overallLtvRow ''2025-01'' 0 10 350) < ''2025-03''"
    by (simp add: overallLtvRow_def)
  show ?thesis
    using a b c d specCriteria_overall_retention specLtvCriteria_overall_ltv
      filtered_set_criteria [of "overallRetentionRow ''2025-01'' 0 10 1" retentionScenario overallFilters
        "overallLtvRow ''2025-01'' 0 10 350" ltvScenario overallLtvFilters "''2025-03''"]
      filtered_set_criteria [of "overallRetentionRow ''2025-01'' 0 10 1" retentionScenario overallFilters
        "overallLtvRow ''2025-03'' 0 4 300" ltvScenario overallLtvFilters "[]"]
    by simp
qed

text \<open>
  C4 as stated fails for LTV rows: the row of cohort \<open>2025-03\<close> meets every listed
  criterion, yet with the boundary \<open>2025-03\<close> it is not in the filtered set.
\<close>

theorem ltv_filtered_boundary_counterexample:
  "overallLtvRow ''2025-03'' 0 4 300 \<in> set ltvScenario
   \<and> specLtvCriteria overallLtvFilters (overallLtvRow ''2025-03'' 0 4 300)
   \<and> overallLtvRow ''2025-03'' 0 4 300 \<notin> set (ltvFiltered ltvScenario overallLtvFilters ''2025-03'')"
  by (simp add: specLtvCriteria_overall_ltv ltvFiltered_scenario)
     (simp add: ltvScenario_def overallLtvRow_def)

section \<open>The loops as maps from cohort keys to groups\<close>

lemma map_of_ensureGroup:
  "map_of (ensureGroup bm k sz) =
     (case map_of bm k of None \<Rightarrow> (map_of bm)(k \<mapsto> \<lparr>grp_size = sz, grp_values = Map.empty\<rparr>)
      | Some g \<Rightarrow> map_of bm)"
  by (auto simp: ensureGroup_def mapHas_def mapSet_def fun_eq_iff map_add_def split: option.splits)

lemma keys_ensureGroup:
  "map fst (ensureGroup bm k sz) = (if k \<in> set (map fst bm) then map fst bm else map fst bm @ [k])"
  by (auto simp: ensureGroup_def mapHas_def mapSet_def map_of_eq_None_iff)

lemma distinct_ensureGroup:
  "distinct (map fst bm) \<Longrightarrow> distinct (map fst (ensureGroup bm k sz))"
  by (simp add: keys_ensureGroup)

lemma keys_setGroupValue: "map fst (setGroupValue k i v bm) = map fst bm"
  by (induction bm) (auto simp: setGroupValue_def)

lemma map_of_setGroupValue:
  "map_of (setGroupValue k i v bm) k' =
     (if k' = k then map_option (putValue i v) (map_of bm k)
      else map_of bm k')"
  by (induction bm) (auto simp: setGroupValue_def)

lemma map_of_retentionStep:
  "map_of (retentionStep lom bm row) = groupStep (truncated lom) retention (map_of bm) row"
  by (auto simp: retentionStep_def groupStep_def recordRow_def truncated_def allowedOffset_def
      newGroup_def Let_def map_of_setGroupValue map_of_ensureGroup fun_eq_iff split: option.splits)

lemma distinct_retentionStep:
  "distinct (map fst bm) \<Longrightarrow> distinct (map fst (retentionStep lom bm row))"
  by (simp add: retentionStep_def Let_def keys_setGroupValue distinct_ensureGroup)

lemma retention_loop:
  "distinct (map fst bm) \<Longrightarrow>
   distinct (map fst (foldl (retentionStep lom) bm rs))
   \<and> map_of (foldl (retentionStep lom) bm rs)
       = foldl (groupStep (truncated lom) retention) (map_of bm) rs"
  by (induction rs arbitrary: bm) (simp_all add: distinct_retentionStep map_of_retentionStep)

lemma map_of_ltvStep:
  "map_of (fst (ltvStep lom st row)) = groupStep (ltvSkipped lom) ltv_per_user (map_of (fst st)) row"
  by (auto simp: ltvStep_def groupStep_def recordRow_def truncated_def ltvSkipped_def allowedOffset_def
      newGroup_def Let_def map_of_setGroupValue map_of_ensureGroup fun_eq_iff split: option.splits)

lemma distinct_ltvStep:
  "distinct (map fst (fst st)) \<Longrightarrow> distinct (map fst (fst (ltvStep lom st row)))"
  by (simp add: ltvStep_def Let_def keys_setGroupValue distinct_ensureGroup)

lemma ltv_loop:
  "distinct (map fst (fst st)) \<Longrightarrow>
   distinct (map fst (fst (foldl (ltvStep lom) st rs)))
   \<and> map_of (fst (foldl (ltvStep lom) st rs))
       = foldl (groupStep (ltvSkipped lom) ltv_per_user) (map_of (fst st)) rs"
  by (induction rs arbitrary: st) (simp_all add: distinct_ltvStep map_of_ltvStep)

lemma toHeatmapRow_simps:
  "cohortMonth (toHeatmapRow (k, g)) = k"
  "cohortSize (toHeatmapRow (k, g)) = grp_size g"
  "cellValues (toHeatmapRow (k, g)) = grp_values g"
  by (simp_all add: toHeatmapRow_def)

lemma orderedRows_iff:
  "distinct (map fst bm) \<Longrightarrow>
   hr \<in> set (orderedRows bm) \<longleftrightarrow> (\<exists>k g. map_of bm k = Some g \<and> hr = toHeatmapRow (k, g))"
  by (auto simp: orderedRows_def)

lemma retention_rows_iff:
  "hr \<in> set (rows (buildRetentionPivot rws filters lom)) \<longleftrightarrow>
     (\<exists>k g. groupsOf (truncated lom) retention (retentionFiltered rws filters) k = Some g
            \<and> hr = toHeatmapRow (k, g))"
  using retention_loop [of "[]" lom "retentionFiltered rws filters"]
  by (simp add: buildRetentionPivot_def Let_def orderedRows_iff groupsOf_def)

lemma ltv_rows_iff:
  "hr \<in> set (rows (buildLtvPivot rws filters lom)) \<longleftrightarrow>
     (\<exists>k g. groupsOf (ltvSkipped lom) ltv_per_user (ltvFiltered rws filters lom) k = Some g
            \<and> hr = toHeatmapRow (k, g))"
  using ltv_loop [of "([], 0)" lom "ltvFiltered rws filters lom"]
  by (simp add: buildLtvPivot_def Let_def orderedRows_iff groupsOf_def)

lemma keys_toHeatmapRow: "map cohortMonth (map toHeatmapRow bm) = map fst bm"
  by (induction bm) (simp_all add: toHeatmapRow_def)

lemma distinct_map_sort_key:
  "distinct (map f xs) \<Longrightarrow> distinct (map f (sort_key f xs))"
  by (simp add: distinct_map)

lemma distinct_orderedRows:
  assumes "distinct (map fst bm)"
  shows "distinct (map cohortMonth (orderedRows bm))"
proof -
  from assms have "distinct (map cohortMonth (map toHeatmapRow bm))"
    by (simp only: keys_toHeatmapRow)
  then show ?thesis
    unfolding orderedRows_def by (rule distinct_map_sort_key)
qed

lemma retention_rows_distinct:
  "distinct (map cohortMonth (rows (buildRetentionPivot rws filters lom)))"
  using retention_loop [of "[]" lom "retentionFiltered rws filters"]
  by (simp add: buildRetentionPivot_def Let_def distinct_orderedRows)

lemma ltv_rows_distinct:
  "distinct (map cohortMonth (rows (buildLtvPivot rws filters lom)))"
  using ltv_loop [of "([], 0)" lom "ltvFiltered rws filters lom"]
  by (simp add: buildLtvPivot_def Let_def distinct_orderedRows)

lemma groupsOf_snoc:
  "groupsOf skip val (rs @ [r]) = groupStep skip val (groupsOf skip val rs) r"
  by (simp add: groupsOf_def)

lemma groupsOf_Nil: "groupsOf skip val [] = Map.empty"
  by (simp add: groupsOf_def)

lemma groupsOf_dom: "dom (groupsOf skip val rs) = cohortMonthKey ` set rs"
proof (induction rs rule: rev_induct)
  case Nil
  then show ?case by (simp add: groupsOf_Nil)
next
  case (snoc r rs)
  have "dom (groupsOf skip val (rs @ [r])) = insert (cohortMonthKey r) (dom (groupsOf skip val rs))"
    by (simp add: groupsOf_snoc groupStep_def)
  with snoc show ?case by auto
qed

lemma groupsOf_None_iff:
  "groupsOf skip val rs k = None \<longleftrightarrow> k \<notin> cohortMonthKey ` set rs"
  using groupsOf_dom [of skip val rs] domIff [of k "groupsOf skip val rs"] by auto

lemma groupsOf_values:
  "groupsOf skip val rs k = Some g \<Longrightarrow> grp_values g i = Some v \<Longrightarrow>
   \<exists>r \<in> set rs. cohortMonthKey r = k \<and> \<not> skip r \<and> offset_m r = i \<and> val r = v"
proof (induction rs arbitrary: g rule: rev_induct)
  case Nil
  then show ?case by (simp add: groupsOf_def)
next
  case (snoc r rs)
  show ?case
  proof (cases "cohortMonthKey r = k")
    case False
    with snoc show ?thesis by (auto simp: groupsOf_snoc groupStep_def)
  next
    case True
    show ?thesis
    proof (cases "groupsOf skip val rs k")
      case None
      with True snoc.prems show ?thesis
        by (auto simp: groupsOf_snoc groupStep_def recordRow_def newGroup_def Let_def putValue_def split: if_splits)
    next
      case (Some g0)
      with True snoc.prems snoc.IH [of g0] show ?thesis
        by (auto simp: groupsOf_snoc groupStep_def recordRow_def Let_def putValue_def split: if_splits)
    qed
  qed
qed

lemma find_snoc:
  "find P (xs @ [x]) = (case find P xs of None \<Rightarrow> (if P x then Some x else None) | Some y \<Rightarrow> Some y)"
  by (induction xs) auto

lemma find_key_Some:
  "k \<in> cohortMonthKey ` set rs \<Longrightarrow>
   \<exists>r. find (\<lambda>r. cohortMonthKey r = k) rs = Some r \<and> r \<in> set rs \<and> cohortMonthKey r = k"
  by (cases "find (\<lambda>r. cohortMonthKey r = k) rs") (auto simp: find_None_iff find_Some_iff)

lemma groupsOf_size:
  "groupsOf skip val rs k = Some g \<Longrightarrow> find (\<lambda>r. cohortMonthKey r = k) rs = Some r \<Longrightarrow>
   grp_size g = cohort_size r"
proof (induction rs arbitrary: g rule: rev_induct)
  case Nil
  then show ?case by simp
next
  case (snoc x rs)
  show ?case
  proof (cases "groupsOf skip val rs k")
    case None
    then have nk: "k \<notin> cohortMonthKey ` set rs"
      using groupsOf_dom [of skip val rs] domIff [of k "groupsOf skip val rs"] by simp
    then have "find (\<lambda>r. cohortMonthKey r = k) rs = None"
      by (auto simp: find_None_iff)
    with snoc.prems None show ?thesis
      by (auto simp: groupsOf_snoc groupStep_def recordRow_def newGroup_def Let_def putValue_def find_snoc
          split: if_splits)
  next
    case (Some g0)
    then have "k \<in> cohortMonthKey ` set rs"
      using groupsOf_dom [of skip val rs] domIff [of k "groupsOf skip val rs"] by simp
    then obtain r0 where r0: "find (\<lambda>r. cohortMonthKey r = k) rs = Some r0"
      by (cases "find (\<lambda>r. cohortMonthKey r = k) rs") (auto simp: find_None_iff)
    with snoc.prems have "r0 = r" by (simp add: find_snoc)
    with snoc.IH [OF Some] r0 have "grp_size g0 = cohort_size r" by simp
    with snoc.prems Some show ?thesis
      by (auto simp: groupsOf_snoc groupStep_def recordRow_def Let_def putValue_def split: if_splits)
  qed
qed

lemma groupsOf_last:
  "\<not> skip r \<Longrightarrow>
   \<exists>g. groupsOf skip val (rs @ [r]) (cohortMonthKey r) = Some g
        \<and> grp_values g (offset_m r) = Some (val r)"
  by (simp add: groupsOf_snoc groupStep_def recordRow_def Let_def putValue_def)

lemma group_exists:
  assumes "r \<in> set rs"
  shows "\<exists>g. groupsOf skip val rs (cohortMonthKey r) = Some g
            \<and> ((\<forall>r' \<in> set rs. cohortMonthKey r' = cohortMonthKey r \<longrightarrow> skip r') \<longrightarrow>
                 grp_values g = Map.empty)"
proof -
  from assms have "groupsOf skip val rs (cohortMonthKey r) \<noteq> None"
    by (simp add: groupsOf_None_iff)
  then obtain g where g: "groupsOf skip val rs (cohortMonthKey r) = Some g" by blast
  have "grp_values g = Map.empty"
    if all: "\<forall>r' \<in> set rs. cohortMonthKey r' = cohortMonthKey r \<longrightarrow> skip r'"
  proof (rule ext)
    fix i
    show "grp_values g i = None"
    proof (cases "grp_values g i")
      case None
      then show ?thesis .
    next
      case (Some v)
      from groupsOf_values [OF g Some] all show ?thesis by blast
    qed
  qed
  with g show ?thesis by blast
qed

lemma monthsDiff_same: "monthsDiff k k = 0"
  by (simp add: monthsDiff_def Let_def split: option.splits)

lemma monthsDiff_nonneg: "0 \<le> monthsDiff a b"
  by (simp add: monthsDiff_def Let_def split: option.splits)

lemma pivot_cell_origin:
  assumes "groupsOf skip val rs k = Some g" and "grp_values g i = Some v"
    and "\<And>r. \<not> skip r \<Longrightarrow> \<not> truncated lom r" and "lom \<noteq> []"
  shows "i \<le> monthsDiff k lom"
proof -
  from groupsOf_values [OF assms(1,2)] obtain r where
    r: "r \<in> set rs" "cohortMonthKey r = k" "\<not> skip r" "offset_m r = i" by blast
  with assms(3) [of r] assms(4) show ?thesis by (auto simp: truncated_def)
qed

section \<open>The scenarios, evaluated\<close>

lemmas parse_defs = monthsDiff_def parsePart_def parseInt_def stripSign_def isNegative_def
  isWhiteSpace_def isDigit_def digitsVal_def digitVal_def

lemma monthsDiff_scenario:
  "monthsDiff ''2025-01'' ''2025-03'' = 2"
  "monthsDiff ''2025-02'' ''2025-03'' = 1"
  "monthsDiff ''2025-03'' ''2025-03'' = 0"
  by (simp_all add: parse_defs)

lemma retentionFiltered_scenario:
  "retentionFiltered retentionScenario overallFilters = retentionScenario"
  by (simp add: retentionFiltered_def retentionScenario_def overallFilters_def
      overallRetentionRow_def retentionFilter_def)

lemma retention_scenario_rows:
  "rows (buildRetentionPivot retentionScenario overallFilters ''2025-03'') =
     [\<lparr>cohortMonth = ''2025-01'', cohortSize = 10, cellValues = [0 \<mapsto> 1, 1 \<mapsto> 0.7]\<rparr>,
      \<lparr>cohortMonth = ''2025-02'', cohortSize = 8, cellValues = [0 \<mapsto> 1]\<rparr>,
      \<lparr>cohortMonth = ''2025-03'', cohortSize = 4, cellValues = Map.empty\<rparr>]"
  by (simp add: buildRetentionPivot_def retentionFiltered_scenario)
     (simp add: retentionScenario_def overallRetentionRow_def retentionStep_def ensureGroup_def
       mapHas_def mapSet_def setGroupValue_def putValue_def allowedOffset_def monthsDiff_scenario
       orderedRows_def toHeatmapRow_def)

lemma retention_scenario_maxMonth:
  "maxMonth (buildRetentionPivot retentionScenario overallFilters ''2025-03'') = 2"
  by (simp add: buildRetentionPivot_def retentionFiltered_scenario)
     (simp add: retentionScenario_def overallRetentionRow_def pivotMaxMonth_def mathMax0_def
       monthsDiff_scenario)

lemma ltv_scenario_rows:
  "rows (buildLtvPivot ltvScenario overallLtvFilters ''2025-03'') =
     [\<lparr>cohortMonth = ''2025-01'', cohortSize = 10, cellValues = [0 \<mapsto> 350]\<rparr>,
      \<lparr>cohortMonth = ''2025-02'', cohortSize = 6, cellValues = Map.empty\<rparr>]"
  by (simp add: buildLtvPivot_def ltvFiltered_scenario)
     (simp add: overallLtvRow_def ltvStep_def ensureGroup_def
       mapHas_def mapSet_def setGroupValue_def putValue_def allowedOffset_def monthsDiff_scenario
       orderedRows_def toHeatmapRow_def)

lemma ltv_scenario_maxMonth:
  "maxMonth (buildLtvPivot ltvScenario overallLtvFilters ''2025-03'') = 2"
  by (simp add: buildLtvPivot_def ltvFiltered_scenario)
     (simp add: overallLtvRow_def pivotMaxMonth_def mathMax0_def monthsDiff_scenario Let_def)

lemma retention_maxMonth:
  "maxMonth (buildRetentionPivot rws filters lom) = pivotMaxMonth lom (retentionFiltered rws filters)"
  by (simp add: buildRetentionPivot_def Let_def)

lemma ltv_maxMonth:
  "maxMonth (buildLtvPivot rws filters lom) = pivotMaxMonth lom (ltvFiltered rws filters lom)"
  by (simp add: buildLtvPivot_def Let_def)

lemma retention_scenario_maxMonth_unbounded:
  "maxMonth (buildRetentionPivot retentionScenario overallFilters []) = 5"
  by (simp add: retention_maxMonth retentionFiltered_scenario)
     (simp add: retentionScenario_def overallRetentionRow_def pivotMaxMonth_def mathMax0_def)

lemma singleCohort_rows:
  "rows (buildRetentionPivot singleCohortRows overallFilters ''2025-03'') =
     [\<lparr>cohortMonth = ''2025-01'', cohortSize = 10, cellValues = [0 \<mapsto> 1, 1 \<mapsto> 0.7]\<rparr>]"
  by (simp add: buildRetentionPivot_def retentionFiltered_def retentionFilter_iff
       singleCohortRows_def specCriteria_overall_retention)
     (simp add: overallRetentionRow_def retentionStep_def ensureGroup_def
       mapHas_def mapSet_def setGroupValue_def putValue_def allowedOffset_def monthsDiff_scenario
       orderedRows_def toHeatmapRow_def)

lemma singleCohort_maxMonth:
  "maxMonth (buildRetentionPivot singleCohortRows overallFilters ''2025-03'') = 2"
  by (simp add: retention_maxMonth retentionFiltered_def retentionFilter_iff
       singleCohortRows_def specCriteria_overall_retention)
     (simp add: overallRetentionRow_def pivotMaxMonth_def mathMax0_def monthsDiff_scenario)

section \<open>Properties of the pivots\<close>

text \<open>
  C3. In a retention or LTV pivot built with a non-empty \<open>lastObservedMonth\<close>, every
  offset recorded in the values of an output row is at most \<open>monthsDiff\<close> of the cohort
  month of that row and \<open>lastObservedMonth\<close>; a row whose offset exceeds the bound of its
  cohort leaves no cell at that offset in the row of its cohort.
\<close>

theorem truncation_bound:
  fixes r :: RetentionRow and l :: LtvRow
  assumes "lom \<noteq> []"
  shows "(\<forall>hr \<in> set (rows (buildRetentionPivot rrows rfilters lom)).
            \<forall>i \<in> dom (cellValues hr). i \<le> monthsDiff (cohortMonth hr) lom)
       \<and> (\<forall>hr \<in> set (rows (buildLtvPivot lrows lfilters lom)).
            \<forall>i \<in> dom (cellValues hr). i \<le> monthsDiff (cohortMonth hr) lom)
       \<and> (offset_m r > monthsDiff (cohortMonthKey r) lom \<longrightarrow>
            (\<forall>hr \<in> set (rows (buildRetentionPivot rrows rfilters lom)).
               cohortMonth hr = cohortMonthKey r \<longrightarrow> cellValues hr (offset_m r) = None))
       \<and> (offset_m l > monthsDiff (cohortMonthKey l) lom \<longrightarrow>
            (\<forall>hr \<in> set (rows (buildLtvPivot lrows lfilters lom)).
               cohortMonth hr = cohortMonthKey l \<longrightarrow> cellValues hr (offset_m l) = None))"
proof -
  have R: "i \<le> monthsDiff (cohortMonth hr) lom"
    if "hr \<in> set (rows (buildRetentionPivot rrows rfilters lom))" and "cellValues hr i = Some v"
    for hr i v
  proof -
    from that obtain k g where
      "groupsOf (truncated lom) retention (retentionFiltered rrows rfilters) k = Some g"
      "hr = toHeatmapRow (k, g)" "grp_values g i = Some v"
      by (auto simp: retention_rows_iff toHeatmapRow_simps)
    then show ?thesis
      using pivot_cell_origin [of "truncated lom" retention _ k g i v lom] assms
      by (simp add: toHeatmapRow_simps)
  qed
  have L: "i \<le> monthsDiff (cohortMonth hr) lom"
    if "hr \<in> set (rows (buildLtvPivot lrows lfilters lom))" and "cellValues hr i = Some v"
    for hr i v
  proof -
    from that obtain k g where
      "groupsOf (ltvSkipped lom) ltv_per_user (ltvFiltered lrows lfilters lom) k = Some g"
      "hr = toHeatmapRow (k, g)" "grp_values g i = Some v"
      by (auto simp: ltv_rows_iff toHeatmapRow_simps)
    then show ?thesis
      using pivot_cell_origin [of "ltvSkipped lom" ltv_per_user _ k g i v lom] assms
      by (simp add: toHeatmapRow_simps ltvSkipped_def)
  qed
  have R': "cellValues hr (offset_m r) = None"
    if "offset_m r > monthsDiff (cohortMonthKey r) lom"
      and "hr \<in> set (rows (buildRetentionPivot rrows rfilters lom))"
      and "cohortMonth hr = cohortMonthKey r" for hr
  proof (cases "cellValues hr (offset_m r)")
    case None
    then show ?thesis .
  next
    case (Some v)
    from R [OF that(2) Some] that(1,3) show ?thesis by simp
  qed
  have L': "cellValues hr (offset_m l) = None"
    if "offset_m l > monthsDiff (cohortMonthKey l) lom"
      and "hr \<in> set (rows (buildLtvPivot lrows lfilters lom))"
      and "cohortMonth hr = cohortMonthKey l" for hr
  proof (cases "cellValues hr (offset_m l)")
    case None
    then show ?thesis .
  next
    case (Some v)
    from L [OF that(2) Some] that(1,3) show ?thesis by simp
  qed
  show ?thesis
    using R L R' L' by (intro conjI ballI impI) (auto simp: dom_def)
qed

theorem truncation_bound_witness:
  "''2025-03'' \<noteq> []
   \<and> 5 \<notin> dom (cellValues (rows (buildRetentionPivot retentionScenario overallFilters ''2025-03'') ! 0))
   \<and> 4 \<notin> dom (cellValues (rows (buildLtvPivot ltvScenario overallLtvFilters ''2025-03'') ! 0))"
proof -
  have h: "''2025-03'' \<noteq> []" by simp
  show ?thesis
    using truncation_bound [OF h, of retentionScenario overallFilters ltvScenario overallLtvFilters]
    by (simp add: retention_scenario_rows ltv_scenario_rows monthsDiff_scenario)
qed

text \<open>
  C9. The cohort size of an output row is the \<open>cohort_size\<close> of the first filtered row,
  in input order, that has the cohort month of the output row, whatever sizes later
  rows of the group carry; every cohort month has one output row. This holds for both
  builders.
\<close>

theorem first_size_wins:
  "(\<forall>hr \<in> set (rows (buildRetentionPivot rrows rfilters lom)).
      \<exists>r. find (\<lambda>r. cohortMonthKey r = cohortMonth hr) (retentionFiltered rrows rfilters) = Some r
          \<and> cohortSize hr = cohort_size r)
   \<and> (\<forall>hr \<in> set (rows (buildLtvPivot lrows lfilters lom)).
      \<exists>r. find (\<lambda>r. cohortMonthKey r = cohortMonth hr) (ltvFiltered lrows lfilters lom) = Some r
          \<and> cohortSize hr = cohort_size r)
   \<and> distinct (map cohortMonth (rows (buildRetentionPivot rrows rfilters lom)))
   \<and> distinct (map cohortMonth (rows (buildLtvPivot lrows lfilters lom)))"
proof (intro conjI ballI)
  fix hr
  assume "hr \<in> set (rows (buildRetentionPivot rrows rfilters lom))"
  then obtain k g where
    g: "groupsOf (truncated lom) retention (retentionFiltered rrows rfilters) k = Some g"
    and hr: "hr = toHeatmapRow (k, g)"
    by (auto simp: retention_rows_iff)
  from g have "k \<in> cohortMonthKey ` set (retentionFiltered rrows rfilters)"
    using groupsOf_None_iff [of "truncated lom" retention "retentionFiltered rrows rfilters" k] by auto
  from find_key_Some [OF this] obtain r where
    r: "find (\<lambda>r. cohortMonthKey r = k) (retentionFiltered rrows rfilters) = Some r" by blast
  from groupsOf_size [OF g r] r hr
  show "\<exists>r. find (\<lambda>r. cohortMonthKey r = cohortMonth hr) (retentionFiltered rrows rfilters) = Some r
          \<and> cohortSize hr = cohort_size r"
    by (simp add: toHeatmapRow_simps)
next
  fix hr
  assume "hr \<in> set (rows (buildLtvPivot lrows lfilters lom))"
  then obtain k g where
    g: "groupsOf (ltvSkipped lom) ltv_per_user (ltvFiltered lrows lfilters lom) k = Some g"
    and hr: "hr = toHeatmapRow (k, g)"
    by (auto simp: ltv_rows_iff)
  from g have "k \<in> cohortMonthKey ` set (ltvFiltered lrows lfilters lom)"
    using groupsOf_None_iff [of "ltvSkipped lom" ltv_per_user "ltvFiltered lrows lfilters lom" k] by auto
  from find_key_Some [OF this] obtain r where
    r: "find (\<lambda>r. cohortMonthKey r = k) (ltvFiltered lrows lfilters lom) = Some r" by blast
  from groupsOf_size [OF g r] r hr
  show "\<exists>r. find (\<lambda>r. cohortMonthKey r = cohortMonth hr) (ltvFiltered lrows lfilters lom) = Some r
          \<and> cohortSize hr = cohort_size r"
    by (simp add: toHeatmapRow_simps)
qed (rule retention_rows_distinct ltv_rows_distinct)+

theorem first_size_wins_witness:
  "cohortMonth (rows (buildRetentionPivot retentionScenario overallFilters ''2025-03'') ! 0) = ''2025-01''
   \<and> cohortSize (rows (buildRetentionPivot retentionScenario overallFilters ''2025-03'') ! 0) = 10
   \<and> cohortMonth (rows (buildLtvPivot ltvScenario overallLtvFilters ''2025-03'') ! 0) = ''2025-01''
   \<and> cohortSize (rows (buildLtvPivot ltvScenario overallLtvFilters ''2025-03'') ! 0) = 10"
  using first_size_wins [of retentionScenario overallFilters "''2025-03''" ltvScenario overallLtvFilters]
  by (simp add: retention_scenario_rows ltv_scenario_rows)

text \<open>
  C10. Every filtered row has an output row for its cohort month, since the group is
  created before any skip is applied; when every filtered row of that cohort is skipped
  (truncated, or for LTV without a positive value), the values of the output row are
  empty.
\<close>

theorem skipped_cohort_kept:
  "(\<forall>r \<in> set (retentionFiltered rrows rfilters).
      \<exists>hr \<in> set (rows (buildRetentionPivot rrows rfilters lom)).
         cohortMonth hr = cohortMonthKey r
         \<and> ((\<forall>r' \<in> set (retentionFiltered rrows rfilters).
                cohortMonthKey r' = cohortMonthKey r \<longrightarrow> truncated lom r')
              \<longrightarrow> cellValues hr = Map.empty))
   \<and> (\<forall>r \<in> set (ltvFiltered lrows lfilters lom).
      \<exists>hr \<in> set (rows (buildLtvPivot lrows lfilters lom)).
         cohortMonth hr = cohortMonthKey r
         \<and> ((\<forall>r' \<in> set (ltvFiltered lrows lfilters lom).
                cohortMonthKey r' = cohortMonthKey r \<longrightarrow> truncated lom r' \<or> ltv_per_user r' \<le> 0)
              \<longrightarrow> cellValues hr = Map.empty))"
proof (intro conjI ballI)
  fix r
  assume r: "r \<in> set (retentionFiltered rrows rfilters)"
  from group_exists [OF r, of "truncated lom" retention] obtain g where
    g: "groupsOf (truncated lom) retention (retentionFiltered rrows rfilters) (cohortMonthKey r) = Some g"
    and e: "(\<forall>r' \<in> set (retentionFiltered rrows rfilters).
               cohortMonthKey r' = cohortMonthKey r \<longrightarrow> truncated lom r') \<longrightarrow> grp_values g = Map.empty"
    by blast
  from g have "toHeatmapRow (cohortMonthKey r, g) \<in> set (rows (buildRetentionPivot rrows rfilters lom))"
    by (auto simp: retention_rows_iff)
  with e show "\<exists>hr \<in> set (rows (buildRetentionPivot rrows rfilters lom)).
         cohortMonth hr = cohortMonthKey r
         \<and> ((\<forall>r' \<in> set (retentionFiltered rrows rfilters).
                cohortMonthKey r' = cohortMonthKey r \<longrightarrow> truncated lom r')
              \<longrightarrow> cellValues hr = Map.empty)"
    by (intro bexI [of _ "toHeatmapRow (cohortMonthKey r, g)"]) (simp_all add: toHeatmapRow_simps)
next
  fix r
  assume r: "r \<in> set (ltvFiltered lrows lfilters lom)"
  from group_exists [OF r, of "ltvSkipped lom" ltv_per_user] obtain g where
    g: "groupsOf (ltvSkipped lom) ltv_per_user (ltvFiltered lrows lfilters lom) (cohortMonthKey r) = Some g"
    and e: "(\<forall>r' \<in> set (ltvFiltered lrows lfilters lom).
               cohortMonthKey r' = cohortMonthKey r \<longrightarrow> ltvSkipped lom r') \<longrightarrow> grp_values g = Map.empty"
    by blast
  from g have "toHeatmapRow (cohortMonthKey r, g) \<in> set (rows (buildLtvPivot lrows lfilters lom))"
    by (auto simp: ltv_rows_iff)
  with e show "\<exists>hr \<in> set (rows (buildLtvPivot lrows lfilters lom)).
         cohortMonth hr = cohortMonthKey r
         \<and> ((\<forall>r' \<in> set (ltvFiltered lrows lfilters lom).
                cohortMonthKey r' = cohortMonthKey r \<longrightarrow> truncated lom r' \<or> ltv_per_user r' \<le> 0)
              \<longrightarrow> cellValues hr = Map.empty)"
    by (intro bexI [of _ "toHeatmapRow (cohortMonthKey r, g)"])
       (simp_all add: toHeatmapRow_simps ltvSkipped_def)
qed

theorem skipped_cohort_kept_witness:
  "cohortMonth (rows (buildRetentionPivot retentionScenario overallFilters ''2025-03'') ! 2) = ''2025-03''
   \<and> cellValues (rows (buildRetentionPivot retentionScenario overallFilters ''2025-03'') ! 2) = Map.empty
   \<and> cohortMonth (rows (buildLtvPivot ltvScenario overallLtvFilters ''2025-03'') ! 1) = ''2025-02''
   \<and> cellValues (rows (buildLtvPivot ltvScenario overallLtvFilters ''2025-03'') ! 1) = Map.empty"
  using skipped_cohort_kept [of retentionScenario overallFilters "''2025-03''" ltvScenario overallLtvFilters]
  by (simp add: retention_scenario_rows ltv_scenario_rows)

lemma filter_filter_implied:
  "(\<And>x. P x \<Longrightarrow> Q x) \<Longrightarrow> filter P (filter Q xs) = filter P xs"
  by (induction xs) auto

lemma ltvFiltered_boundary:
  assumes "lom \<noteq> []"
  shows "ltvFiltered (filter (\<lambda>r. \<not> lom \<le> cohortMonthKey r) rws) filters lom
           = ltvFiltered rws filters lom"
  unfolding ltvFiltered_def
proof (rule filter_filter_implied)
  fix x
  assume "ltvFilter filters lom x"
  with assms show "\<not> lom \<le> cohortMonthKey x"
    by (simp add: ltvFilter_iff not_le)
qed

lemma ltv_pivot_filtered_only:
  "ltvFiltered rws filters lom = ltvFiltered rws' filters lom \<Longrightarrow>
   buildLtvPivot rws filters lom = buildLtvPivot rws' filters lom"
  by (simp add: buildLtvPivot_def)

text \<open>
  C2. With a non-empty \<open>lastObservedMonth\<close>, the LTV pivot is the pivot of the input
  without the rows whose cohort month is not before the boundary, and no output row of
  the LTV pivot has such a cohort month; a retention row that passes the filter and
  whose cohort month equals the boundary still has an output row in the retention
  pivot, with no offset above 0.
\<close>

theorem ltv_boundary_exclusion:
  assumes "lom \<noteq> []"
  shows "buildLtvPivot lrows lfilters lom
           = buildLtvPivot (filter (\<lambda>r. \<not> lom \<le> cohortMonthKey r) lrows) lfilters lom
       \<and> (\<forall>hr \<in> set (rows (buildLtvPivot lrows lfilters lom)). cohortMonth hr < lom)
       \<and> (\<forall>r \<in> set rrows. retentionFilter rfilters r \<and> cohortMonthKey r = lom \<longrightarrow>
            (\<exists>hr \<in> set (rows (buildRetentionPivot rrows rfilters lom)).
               cohortMonth hr = lom \<and> (\<forall>i \<in> dom (cellValues hr). i \<le> 0)))"
proof (intro conjI ballI impI)
  show "buildLtvPivot lrows lfilters lom
           = buildLtvPivot (filter (\<lambda>r. \<not> lom \<le> cohortMonthKey r) lrows) lfilters lom"
    using ltvFiltered_boundary [OF assms, of lrows lfilters]
    by (intro ltv_pivot_filtered_only) simp
next
  fix hr
  assume "hr \<in> set (rows (buildLtvPivot lrows lfilters lom))"
  then obtain k g where
    g: "groupsOf (ltvSkipped lom) ltv_per_user (ltvFiltered lrows lfilters lom) k = Some g"
    and hr: "hr = toHeatmapRow (k, g)"
    by (auto simp: ltv_rows_iff)
  from g have "k \<in> cohortMonthKey ` set (ltvFiltered lrows lfilters lom)"
    using groupsOf_None_iff [of "ltvSkipped lom" ltv_per_user "ltvFiltered lrows lfilters lom" k] by auto
  then obtain r where "ltvFilter lfilters lom r" and "cohortMonthKey r = k"
    by (auto simp: ltvFiltered_def)
  with assms have "k < lom"
    by (simp add: ltvFilter_iff)
  with hr show "cohortMonth hr < lom"
    by (simp add: toHeatmapRow_simps)
next
  fix r
  assume "r \<in> set rrows" and "retentionFilter rfilters r \<and> cohortMonthKey r = lom"
  then have r: "r \<in> set (retentionFiltered rrows rfilters)" and k: "cohortMonthKey r = lom"
    by (simp_all add: retentionFiltered_def)
  from group_exists [OF r, of "truncated lom" retention] obtain g where
    g: "groupsOf (truncated lom) retention (retentionFiltered rrows rfilters) lom = Some g"
    using k by auto
  have hr: "toHeatmapRow (lom, g) \<in> set (rows (buildRetentionPivot rrows rfilters lom))"
    using g by (auto simp: retention_rows_iff)
  have "i \<le> 0" if "i \<in> dom (grp_values g)" for i
  proof -
    from that obtain v where "grp_values g i = Some v" by auto
    from pivot_cell_origin [OF g this, of lom] assms show ?thesis
      by (simp add: monthsDiff_same)
  qed
  with hr show "\<exists>hr \<in> set (rows (buildRetentionPivot rrows rfilters lom)).
               cohortMonth hr = lom \<and> (\<forall>i \<in> dom (cellValues hr). i \<le> 0)"
    by (intro bexI [of _ "toHeatmapRow (lom, g)"]) (simp_all add: toHeatmapRow_simps)
qed

theorem ltv_boundary_exclusion_witness:
  "''2025-03'' \<noteq> []
   \<and> rows (buildLtvPivot (filter (\<lambda>r. \<not> ''2025-03'' \<le> cohortMonthKey r) ltvScenario)
        overallLtvFilters ''2025-03'')
     = [\<lparr>cohortMonth = ''2025-01'', cohortSize = 10, cellValues = [0 \<mapsto> 350]\<rparr>,
        \<lparr>cohortMonth = ''2025-02'', cohortSize = 6, cellValues = Map.empty\<rparr>]
   \<and> ''2025-03'' \<notin> set (map cohortMonth (rows (buildLtvPivot ltvScenario overallLtvFilters ''2025-03'')))
   \<and> ''2025-03'' \<in> set (map cohortMonth (rows (buildRetentionPivot retentionScenario overallFilters ''2025-03'')))"
proof -
  have h: "''2025-03'' \<noteq> []" by simp
  show ?thesis
    using ltv_boundary_exclusion [OF h, of ltvScenario overallLtvFilters retentionScenario overallFilters]
      ltv_scenario_rows
    by (simp add: retention_scenario_rows)
qed

lemma mathMax0_Max: "mathMax0 xs = Max (insert 0 (set xs))"
proof -
  have "foldl max a xs = Max (insert a (set xs))" for a :: int
  proof (induction xs arbitrary: a)
    case Nil
    then show ?case by simp
  next
    case (Cons x xs)
    have "Max (insert (max a x) (set xs)) = Max (insert a (insert x (set xs)))"
      by (cases "set xs = {}") (simp_all add: max.assoc)
    with Cons show ?case by simp
  qed
  then show ?thesis by (simp add: mathMax0_def)
qed

lemma mathMax0_nonneg:
  assumes "xs \<noteq> []" and "\<forall>x \<in> set xs. 0 \<le> x"
  shows "mathMax0 xs = Max (set xs)"
proof -
  from assms have "hd xs \<in> set xs" and "0 \<le> hd xs"
    by simp_all
  then have "0 \<le> Max (set xs)"
    by (meson List.finite_set Max_ge order_trans)
  with assms(1) show ?thesis
    by (simp add: mathMax0_Max)
qed

lemma pivotMaxMonth_cases:
  "(filtered = [] \<longrightarrow> pivotMaxMonth lom filtered = 0)
   \<and> (filtered \<noteq> [] \<and> lom = [] \<and> (\<forall>r \<in> set filtered. 0 \<le> offset_m r) \<longrightarrow>
        pivotMaxMonth lom filtered = Max (offset_m ` set filtered))
   \<and> (filtered \<noteq> [] \<and> lom \<noteq> [] \<longrightarrow>
        pivotMaxMonth lom filtered = Max ((\<lambda>r. monthsDiff (cohortMonthKey r) lom) ` set filtered))"
proof (intro conjI impI)
  show "filtered = [] \<Longrightarrow> pivotMaxMonth lom filtered = 0"
    by (simp add: pivotMaxMonth_def)
next
  assume "filtered \<noteq> [] \<and> lom = [] \<and> (\<forall>r \<in> set filtered. 0 \<le> offset_m r)"
  then show "pivotMaxMonth lom filtered = Max (offset_m ` set filtered)"
    using mathMax0_nonneg [of "map offset_m filtered"] by (simp add: pivotMaxMonth_def)
next
  assume "filtered \<noteq> [] \<and> lom \<noteq> []"
  then show "pivotMaxMonth lom filtered = Max ((\<lambda>r. monthsDiff (cohortMonthKey r) lom) ` set filtered)"
    using mathMax0_nonneg [of "map (\<lambda>r. monthsDiff (cohortMonthKey r) lom) filtered"]
    by (simp add: pivotMaxMonth_def monthsDiff_nonneg)
qed

text \<open>
  C6. \<open>maxMonth\<close> is 0 when the filtered set is empty; when the filtered set is not
  empty and \<open>lastObservedMonth\<close> is empty it is the largest offset of the filtered rows
  (offsets are non-negative); when \<open>lastObservedMonth\<close> is not empty it is the largest
  \<open>monthsDiff\<close> of a filtered row's cohort month and \<open>lastObservedMonth\<close>. In the scenario
  of one cohort \<open>2025-01\<close> with offsets 0 and 1 and the boundary \<open>2025-03\<close> the pivot has one
  row with the values \<open>{0: 1.0, 1: 0.7}\<close> and \<open>maxMonth = 2\<close>.
\<close>

theorem maxMonth_characterisation:
  "(retentionFiltered rrows rfilters = [] \<longrightarrow> maxMonth (buildRetentionPivot rrows rfilters lom) = 0)
   \<and> (retentionFiltered rrows rfilters \<noteq> [] \<and> lom = []
        \<and> (\<forall>r \<in> set (retentionFiltered rrows rfilters). 0 \<le> offset_m r) \<longrightarrow>
      maxMonth (buildRetentionPivot rrows rfilters lom)
        = Max (offset_m ` set (retentionFiltered rrows rfilters)))
   \<and> (retentionFiltered rrows rfilters \<noteq> [] \<and> lom \<noteq> [] \<longrightarrow>
      maxMonth (buildRetentionPivot rrows rfilters lom)
        = Max ((\<lambda>r. monthsDiff (cohortMonthKey r) lom) ` set (retentionFiltered rrows rfilters)))
   \<and> (ltvFiltered lrows lfilters lom = [] \<longrightarrow> maxMonth (buildLtvPivot lrows lfilters lom) = 0)
   \<and> (ltvFiltered lrows lfilters lom \<noteq> [] \<and> lom = []
        \<and> (\<forall>r \<in> set (ltvFiltered lrows lfilters lom). 0 \<le> offset_m r) \<longrightarrow>
      maxMonth (buildLtvPivot lrows lfilters lom)
        = Max (offset_m ` set (ltvFiltered lrows lfilters lom)))
   \<and> (ltvFiltered lrows lfilters lom \<noteq> [] \<and> lom \<noteq> [] \<longrightarrow>
      maxMonth (buildLtvPivot lrows lfilters lom)
        = Max ((\<lambda>r. monthsDiff (cohortMonthKey r) lom) ` set (ltvFiltered lrows lfilters lom)))
   \<and> rows (buildRetentionPivot singleCohortRows overallFilters ''2025-03'') =
        [\<lparr>cohortMonth = ''2025-01'', cohortSize = 10, cellValues = [0 \<mapsto> 1, 1 \<mapsto> 0.7]\<rparr>]
   \<and> maxMonth (buildRetentionPivot singleCohortRows overallFilters ''2025-03'') = 2"
proof -
  have r: "(retentionFiltered rrows rfilters = [] \<longrightarrow> maxMonth (buildRetentionPivot rrows rfilters lom) = 0)
   \<and> (retentionFiltered rrows rfilters \<noteq> [] \<and> lom = []
        \<and> (\<forall>r \<in> set (retentionFiltered rrows rfilters). 0 \<le> offset_m r) \<longrightarrow>
      maxMonth (buildRetentionPivot rrows rfilters lom)
        = Max (offset_m ` set (retentionFiltered rrows rfilters)))
   \<and> (retentionFiltered rrows rfilters \<noteq> [] \<and> lom \<noteq> [] \<longrightarrow>
      maxMonth (buildRetentionPivot rrows rfilters lom)
        = Max ((\<lambda>r. monthsDiff (cohortMonthKey r) lom) ` set (retentionFiltered rrows rfilters)))"
    unfolding retention_maxMonth by (rule pivotMaxMonth_cases)
  have l: "(ltvFiltered lrows lfilters lom = [] \<longrightarrow> maxMonth (buildLtvPivot lrows lfilters lom) = 0)
   \<and> (ltvFiltered lrows lfilters lom \<noteq> [] \<and> lom = []
        \<and> (\<forall>r \<in> set (ltvFiltered lrows lfilters lom). 0 \<le> offset_m r) \<longrightarrow>
      maxMonth (buildLtvPivot lrows lfilters lom)
        = Max (offset_m ` set (ltvFiltered lrows lfilters lom)))
   \<and> (ltvFiltered lrows lfilters lom \<noteq> [] \<and> lom \<noteq> [] \<longrightarrow>
      maxMonth (buildLtvPivot lrows lfilters lom)
        = Max ((\<lambda>r. monthsDiff (cohortMonthKey r) lom) ` set (ltvFiltered lrows lfilters lom)))"
    unfolding ltv_maxMonth by (rule pivotMaxMonth_cases)
  from r l singleCohort_rows singleCohort_maxMonth show ?thesis
    by (intro conjI) (elim conjE, assumption)+
qed

theorem maxMonth_characterisation_witness:
  "maxMonth (buildRetentionPivot [] overallFilters ''2025-03'') = 0
   \<and> maxMonth (buildRetentionPivot retentionScenario overallFilters ''2025-03'') = 2
   \<and> maxMonth (buildRetentionPivot retentionScenario overallFilters []) = 5
   \<and> maxMonth (buildLtvPivot ltvScenario overallLtvFilters ''2025-03'') = 2"
  using maxMonth_characterisation [of "[]" overallFilters "''2025-03''" ltvScenario overallLtvFilters]
    maxMonth_characterisation [of retentionScenario overallFilters "[]" "[]" overallLtvFilters]
  by (simp add: retention_scenario_maxMonth retention_scenario_maxMonth_unbounded
      ltv_scenario_maxMonth retentionFiltered_def)

section \<open>Malformed ratios\<close>

lemma toDouble_small:
  assumes "\<bar>x\<bar> < 2 ^ 970"
  shows "toDouble x = Finite x"
proof -
  define T :: real where "T = 2 ^ 970"
  have "(2::real) ^ 1024 = 2 ^ 54 * T"
    unfolding T_def by (simp only: power_add [symmetric]) simp
  moreover have "0 < T"
    by (simp add: T_def)
  ultimately have "T \<le> DOUBLE_OVERFLOW"
    unfolding DOUBLE_OVERFLOW_def T_def [symmetric] by simp
  moreover from assms have "\<bar>x\<bar> < T"
    by (simp only: T_def)
  ultimately have "\<not> DOUBLE_OVERFLOW \<le> x" and "\<not> x \<le> - DOUBLE_OVERFLOW"
    by linarith+
  then show ?thesis
    by (simp add: toDouble_def)
qed

lemmas float_defs = trim_def parseFloat_def stripSign_def isNegative_def exponentPart_def
  pow10_def isWhiteSpace_def isDigit_def digitsVal_def digitVal_def Let_def

text \<open>The three spellings of one half normalise to the same ratio; white space around
  the text is skipped, the no-break space included.\<close>

lemma parseRetention_percent:
  "parseRetention (JString ''50%'') = 0.5"
  "parseRetention (JString ''0.5'') = 0.5"
  "parseRetention (JNumber (Finite 0.5)) = 0.5"
  "parseRetention (JString [CHR 0xA0, CHR ''0'', CHR ''.'', CHR ''5'', CHR '' '']) = 0.5"
  by (simp_all add: float_defs toDouble_small)

text \<open>A text that begins with a number is read as that number, whatever follows; a
  literal beyond the range of a double is an infinity and gives 0.\<close>

lemma parseRetention_prefix:
  "parseRetention (JString ''12abc'') = 12"
  "parseRetention (JString ''1.2.3'') = 1.2"
  by (simp_all add: float_defs toDouble_small)

lemma parseFloat_overflow: "parseFloat ''1e309'' = PosInfinity"
proof -
  have "DOUBLE_OVERFLOW \<le> (10::real) ^ 309"
    by (simp add: DOUBLE_OVERFLOW_def)
  then show ?thesis
    by (simp add: float_defs toDouble_def)
qed

lemma parseRetention_overflow: "parseRetention (JString ''1e309'') = 0"
  by (simp add: parseFloat_overflow trim_def isWhiteSpace_def)

lemma parseFloat_no_prefix:
  assumes "\<not> startsNumber (stripSign (dropWhile isWhiteSpace t))"
  shows "\<not> isFiniteNum (parseFloat t)"
proof (cases "stripSign (dropWhile isWhiteSpace t)")
  case Nil
  then show ?thesis
    by (simp add: parseFloat_def Let_def isFiniteNum_def)
next
  case (Cons c cs)
  with assms have c: "\<not> isDigit c" and d: "c = CHR ''.'' \<longrightarrow> cs = [] \<or> \<not> isDigit (hd cs)"
    by (simp_all add: startsNumber_def)
  from d have fp: "c = CHR ''.'' \<Longrightarrow> takeWhile isDigit cs = []"
    by (cases cs) auto
  from Cons c fp show ?thesis
    by (simp add: parseFloat_def Let_def isFiniteNum_def)
qed

lemma finiteOrZero_not_finite: "\<not> isFiniteNum n \<Longrightarrow> finiteOrZero n = 0"
  by (cases n) (simp_all add: isFiniteNum_def)

lemma parseRetention_no_prefix: "noNumericPrefix v \<Longrightarrow> parseRetention v = 0"
proof (cases v)
  case (JNumber n)
  assume "noNumericPrefix v"
  with JNumber show ?thesis
    by (simp add: noNumericPrefix_def finiteOrZero_not_finite)
next
  case (JString s)
  assume "noNumericPrefix v"
  with JString have n: "\<not> isFiniteNum (parseFloat (ratioText s))"
    by (simp add: noNumericPrefix_def parseFloat_no_prefix)
  show ?thesis
  proof (cases "trim s = []")
    case True
    with JString show ?thesis by simp
  next
    case False
    show ?thesis
    proof (cases "last (trim s) = CHR ''%''")
      case True
      with False n have "\<not> isFiniteNum (parseFloat (butlast (trim s)))"
        by (simp add: ratioText_def)
      with True False JString show ?thesis
        by (cases "parseFloat (butlast (trim s))") (simp_all add: isFiniteNum_def)
    next
      case no: False
      with False n have "\<not> isFiniteNum (parseFloat (trim s))"
        by (simp add: ratioText_def)
      with no False JString show ?thesis
        by (simp add: finiteOrZero_not_finite)
    qed
  qed
next
  case JOther
  then show ?thesis by simp
qed

text \<open>A recorded cell keeps its value as long as no later row writes the same offset of
  the same cohort.\<close>

lemma groupsOf_kept:
  assumes "\<not> skip r"
    and "\<forall>x \<in> set post. cohortMonthKey x = cohortMonthKey r \<and> offset_m x = offset_m r \<longrightarrow> skip x"
  shows "\<exists>g. groupsOf skip val (pre @ r # post) (cohortMonthKey r) = Some g
            \<and> grp_values g (offset_m r) = Some (val r)"
  using assms(2)
proof (induction post rule: rev_induct)
  case Nil
  from groupsOf_last [of skip r val pre] assms(1) show ?case by simp
next
  case (snoc x post)
  then obtain g where
    g: "groupsOf skip val (pre @ r # post) (cohortMonthKey r) = Some g"
    and v: "grp_values g (offset_m r) = Some (val r)"
    by auto
  have step: "groupsOf skip val (pre @ r # post @ [x])
                = groupStep skip val (groupsOf skip val (pre @ r # post)) x"
    using groupsOf_snoc [of skip val "pre @ r # post" x] by simp
  show ?case
  proof (cases "cohortMonthKey x = cohortMonthKey r")
    case False
    with g v show ?thesis
      by (simp add: step groupStep_def)
  next
    case True
    show ?thesis
    proof (cases "skip x")
      case True
      with \<open>cohortMonthKey x = cohortMonthKey r\<close> g v show ?thesis
        by (simp add: step groupStep_def recordRow_def)
    next
      case False
      with True snoc.prems have "offset_m x \<noteq> offset_m r" by auto
      with False True g v show ?thesis
        by (simp add: step groupStep_def recordRow_def putValue_def)
    qed
  qed
qed

lemma retention_row_recorded:
  assumes "retentionFilter filters r" and "\<not> truncated lom r"
    and "\<forall>x \<in> set post. retentionFilter filters x \<longrightarrow>
           cohortMonthKey x \<noteq> cohortMonthKey r \<or> offset_m x \<noteq> offset_m r"
  shows "\<exists>hr \<in> set (rows (buildRetentionPivot (pre @ r # post) filters lom)).
           cohortMonth hr = cohortMonthKey r \<and> cellValues hr (offset_m r) = Some (retention r)"
proof -
  from assms(1) have f: "retentionFiltered (pre @ r # post) filters
                           = retentionFiltered pre filters @ r # retentionFiltered post filters"
    by (simp add: retentionFiltered_def)
  from assms(3) have later: "\<forall>x \<in> set (retentionFiltered post filters).
      cohortMonthKey x = cohortMonthKey r \<and> offset_m x = offset_m r \<longrightarrow> truncated lom x"
    by (auto simp: retentionFiltered_def)
  from groupsOf_kept [OF assms(2) later, of retention "retentionFiltered pre filters"] obtain g where
    g: "groupsOf (truncated lom) retention (retentionFiltered (pre @ r # post) filters)
          (cohortMonthKey r) = Some g"
    and v: "grp_values g (offset_m r) = Some (retention r)"
    unfolding f by blast
  from g have "toHeatmapRow (cohortMonthKey r, g)
                 \<in> set (rows (buildRetentionPivot (pre @ r # post) filters lom))"
    by (auto simp: retention_rows_iff)
  with v show ?thesis
    by (intro bexI [of _ "toHeatmapRow (cohortMonthKey r, g)"]) (simp_all add: toHeatmapRow_simps)
qed

lemma trim_na: "trim ''n/a'' = ''n/a''"
  by (simp add: trim_def isWhiteSpace_def)

lemma parseFloat_na: "parseFloat ''n/a'' = NaN"
  by (simp add: parseFloat_def stripSign_def isWhiteSpace_def isDigit_def Let_def)

lemma parseRetention_na: "parseRetention (JString ''n/a'') = 0"
  by (simp add: trim_na parseFloat_na)

lemma noNumericPrefix_na: "noNumericPrefix (JString ''n/a'')"
  by (simp add: noNumericPrefix_def ratioText_def trim_na stripSign_def startsNumber_def
      isWhiteSpace_def isDigit_def)

lemma malformedRatioRow_eq: "malformedRatioRow = overallRetentionRow ''2025-01'' 0 10 0"
  by (simp only: malformedRatioRow_def parseRetention_na)

lemmas pivot_eval = overallRetentionRow_def retentionStep_def ensureGroup_def
  mapHas_def mapSet_def setGroupValue_def putValue_def allowedOffset_def monthsDiff_scenario
  orderedRows_def toHeatmapRow_def

lemma malformed_row_pivot:
  "rows (buildRetentionPivot [malformedRatioRow] overallFilters ''2025-03'') =
     [\<lparr>cohortMonth = ''2025-01'', cohortSize = 10, cellValues = [0 \<mapsto> 0]\<rparr>]"
  by (simp add: buildRetentionPivot_def retentionFiltered_def retentionFilter_iff
       malformedRatioRow_eq specCriteria_overall_retention)
     (simp add: pivot_eval)

lemma malformed_scenario_pivot:
  "rows (buildRetentionPivot malformedRatioScenario overallFilters ''2025-03'') =
     [\<lparr>cohortMonth = ''2025-01'', cohortSize = 10, cellValues = [0 \<mapsto> 0, 1 \<mapsto> 0.7]\<rparr>,
      \<lparr>cohortMonth = ''2025-02'', cohortSize = 8, cellValues = [0 \<mapsto> 1]\<rparr>]"
  by (simp add: buildRetentionPivot_def retentionFiltered_def retentionFilter_iff
       malformedRatioScenario_def malformedRatioRow_eq specCriteria_overall_retention)
     (simp add: pivot_eval)

text \<open>
  C8 (as amended). \<open>parseRetention\<close> turns a raw ratio without a numeric prefix into the
  ratio 0 and raises nothing. The retention builder does not tell the row that carries
  it from any other: when the row passes the filter, is not truncated, and no later row
  that passes the filter has the same cohort month and offset, the output row of its
  cohort records 0 at the offset of the row.
\<close>

theorem non_numeric_ratio_recorded_as_zero:
  assumes "noNumericPrefix v" and "retention r = parseRetention v"
    and "retentionFilter filters r" and "\<not> truncated lom r"
    and "\<forall>x \<in> set post. retentionFilter filters x \<longrightarrow>
           cohortMonthKey x \<noteq> cohortMonthKey r \<or> offset_m x \<noteq> offset_m r"
  shows "parseRetention v = 0
       \<and> (\<exists>hr \<in> set (rows (buildRetentionPivot (pre @ r # post) filters lom)).
            cohortMonth hr = cohortMonthKey r \<and> cellValues hr (offset_m r) = Some 0)"
  using parseRetention_no_prefix [OF assms(1)] assms(2)
    retention_row_recorded [OF assms(3,4,5), of pre]
  by simp

theorem non_numeric_ratio_recorded_as_zero_witness:
  "noNumericPrefix (JString ''n/a'')
   \<and> retention malformedRatioRow = parseRetention (JString ''n/a'')
   \<and> retentionFilter overallFilters malformedRatioRow
   \<and> \<not> truncated ''2025-03'' malformedRatioRow
   \<and> retentionFilter overallFilters (overallRetentionRow ''2025-01'' 1 10 0.7)
   \<and> offset_m (overallRetentionRow ''2025-01'' 1 10 0.7) \<noteq> offset_m malformedRatioRow
   \<and> parseRetention (JString ''n/a'') = 0
   \<and> cohortMonth (rows (buildRetentionPivot malformedRatioScenario overallFilters ''2025-03'') ! 0)
       = cohortMonthKey malformedRatioRow
   \<and> cellValues (rows (buildRetentionPivot malformedRatioScenario overallFilters ''2025-03'') ! 0)
       (offset_m malformedRatioRow) = Some 0"
proof -
  have a: "noNumericPrefix (JString ''n/a'')"
    by (rule noNumericPrefix_na)
  have b: "retention malformedRatioRow = parseRetention (JString ''n/a'')"
    by (simp add: malformedRatioRow_def overallRetentionRow_def)
  have c: "retentionFilter overallFilters malformedRatioRow"
    by (simp add: retentionFilter_iff malformedRatioRow_eq specCriteria_overall_retention)
  have d: "\<not> truncated ''2025-03'' malformedRatioRow"
    by (simp add: truncated_def malformedRatioRow_eq overallRetentionRow_def monthsDiff_scenario)
  have e: "\<forall>x \<in> set [overallRetentionRow ''2025-01'' 1 10 0.7].
             retentionFilter overallFilters x \<longrightarrow>
               cohortMonthKey x \<noteq> cohortMonthKey malformedRatioRow
               \<or> offset_m x \<noteq> offset_m malformedRatioRow"
    by (simp add: malformedRatioRow_eq overallRetentionRow_def)
  have f: "retentionFilter overallFilters (overallRetentionRow ''2025-01'' 1 10 0.7)"
    by (simp add: retentionFilter_iff specCriteria_overall_retention)
  have g: "offset_m (overallRetentionRow ''2025-01'' 1 10 0.7) \<noteq> offset_m malformedRatioRow"
    by (simp add: malformedRatioRow_eq overallRetentionRow_def)
  have h: "cohortMonthKey malformedRatioRow = ''2025-01''" "offset_m malformedRatioRow = 0"
    by (simp_all add: malformedRatioRow_eq overallRetentionRow_def)
  show ?thesis
    using a b c d f g
      non_numeric_ratio_recorded_as_zero [OF a b c d e, of "[overallRetentionRow ''2025-02'' 0 8 1]"]
    by (simp add: malformed_scenario_pivot h malformedRatioScenario_def [symmetric])
qed

text \<open>
  C8 as stated fails: the row whose raw ratio is \<open>n/a\<close> is not excluded; the pivot built
  from it has a row for its cohort with the ratio 0 at offset 0.
\<close>

theorem non_numeric_ratio_counterexample:
  "noNumericPrefix (JString ''n/a'')
   \<and> retention malformedRatioRow = parseRetention (JString ''n/a'')
   \<and> rows (buildRetentionPivot [malformedRatioRow] overallFilters ''2025-03'') =
       [\<lparr>cohortMonth = ''2025-01'', cohortSize = 10, cellValues = [0 \<mapsto> 0]\<rparr>]"
  by (simp add: malformed_row_pivot noNumericPrefix_na)
     (simp add: malformedRatioRow_def overallRetentionRow_def)

end
